theory Spec2Isabelle
  imports Complex_Main "HOL-Library.Multiset"
begin

section \<open>Common ground: errors, loops, arrays\<close>

text \<open>
  The Python exceptions that the modelled code can raise. \<open>FloatingPointError\<close> stands
  for a float division by zero: numpy only warns there (and yields inf or nan) unless its
  error state is set to raise; the model makes the event observable as a result.
\<close>

datatype error =
  ValueError | TypeError | IndexError | KeyError | NameError | EOFError | FloatingPointError

text \<open>A Python \<open>for j in js: s = body(j, s)\<close>; an exception ends the loop.\<close>

fun for_loop :: "'i list \<Rightarrow> ('i \<Rightarrow> 's \<Rightarrow> error + 's) \<Rightarrow> 's \<Rightarrow> error + 's" where
  "for_loop [] body s = Inr s"
| "for_loop (j # js) body s =
     (case body j s of Inl e \<Rightarrow> Inl e | Inr s' \<Rightarrow> for_loop js body s')"

text \<open>
  A 2D numpy array is the list of its rows. A matrix with no rows does not record its
  number of columns; the claims below are about matrices with at least one row wherever
  that matters.
\<close>

type_synonym 'a matrix = "'a list list"

definition mat :: "nat \<Rightarrow> nat \<Rightarrow> 'a matrix \<Rightarrow> bool" where
  "mat r c M = (length M = r \<and> list_all (\<lambda>row. length row = c) M)"

text \<open>\<open>M[:, j]\<close>: numpy raises IndexError when \<open>j\<close> is not a column of \<open>M\<close>.\<close>

definition column :: "'a matrix \<Rightarrow> nat \<Rightarrow> error + 'a list" where
  "column M j =
     (if list_all (\<lambda>row. j < length row) M then Inr (map (\<lambda>row. row ! j) M)
      else Inl IndexError)"

text \<open>\<open>M[:, j] = v\<close> for a vector \<open>v\<close> with one entry per row of \<open>M\<close>.\<close>

definition set_column :: "'a matrix \<Rightarrow> nat \<Rightarrow> 'a list \<Rightarrow> 'a matrix" where
  "set_column M j v = map (\<lambda>(row, x). row[j := x]) (zip M v)"

text \<open>\<open>M[0, :]\<close>.\<close>

definition row0 :: "'a matrix \<Rightarrow> error + 'a list" where
  "row0 M = (case M of [] \<Rightarrow> Inl IndexError | r # _ \<Rightarrow> Inr r)"

text \<open>\<open>xs[i]\<close> for a non-negative index.\<close>

definition item :: "'a list \<Rightarrow> nat \<Rightarrow> error + 'a" where
  "item xs i = (if i < length xs then Inr (xs ! i) else Inl IndexError)"

section \<open>Component matching in \<open>separate\<close> (neuropil.py)\<close>

subsection \<open>Normalising the mixing weights, lines 212 to 215\<close>

text \<open>
  \<open>A = abs(np.copy(A_sep))\<close>, then for each \<open>j\<close> in \<open>range(n_components)\<close>:
  \<open>if np.sum(A[:, j]) != 0: A[:, j] /= np.sum(A[:, j])\<close>.
  Values are exact reals. \<open>np_divide\<close> is the division of a column by a scalar.
\<close>

definition abs_matrix :: "real matrix \<Rightarrow> real matrix" where
  "abs_matrix A = map (map abs) A"

definition np_divide :: "real list \<Rightarrow> real \<Rightarrow> error + real list" where
  "np_divide xs d = (if d = 0 then Inl FloatingPointError else Inr (map (\<lambda>x. x / d) xs))"

definition normalize_step :: "nat \<Rightarrow> real matrix \<Rightarrow> error + real matrix" where
  "normalize_step j A =
     (case column A j of
        Inl e \<Rightarrow> Inl e
      | Inr c \<Rightarrow>
          if sum_list c \<noteq> 0 then
            (case np_divide c (sum_list c) of
               Inl e \<Rightarrow> Inl e
             | Inr c' \<Rightarrow> Inr (set_column A j c'))
          else Inr A)"

definition normalize_columns :: "nat \<Rightarrow> real matrix \<Rightarrow> error + real matrix" where
  "normalize_columns n A_sep = for_loop [0..<n] normalize_step (abs_matrix A_sep)"

subsection \<open>Helper facts about loops and matrices\<close>

lemma for_loop_append:
  "for_loop (xs @ ys) body s =
     (case for_loop xs body s of Inl e \<Rightarrow> Inl e | Inr s' \<Rightarrow> for_loop ys body s')"
  by (induction xs arbitrary: s) (auto split: sum.splits)

lemma mat_length: "mat r c M \<Longrightarrow> length M = r"
  by (simp add: mat_def)

lemma mat_row_length: "mat r c M \<Longrightarrow> row \<in> set M \<Longrightarrow> length row = c"
  by (simp add: mat_def list_all_iff)

lemma column_mat: "mat r c M \<Longrightarrow> j < c \<Longrightarrow> column M j = Inr (map (\<lambda>row. row ! j) M)"
  by (simp add: column_def mat_def list_all_iff)

lemma mat_set_column: "mat r c M \<Longrightarrow> length v = r \<Longrightarrow> mat r c (set_column M j v)"
  by (auto simp: mat_def set_column_def list_all_iff dest: set_zip_leftD)

lemma set_column_same:
  assumes "mat r c M" "length v = r" "j < c"
  shows "map (\<lambda>row. row ! j) (set_column M j v) = v"
proof (rule nth_equalityI)
  show "length (map (\<lambda>row. row ! j) (set_column M j v)) = length v"
    using assms by (simp add: set_column_def mat_def)
next
  fix i assume "i < length (map (\<lambda>row. row ! j) (set_column M j v))"
  then have i: "i < r" using assms by (simp add: set_column_def mat_def)
  then have "length (M ! i) = c"
    using assms(1) by (simp add: mat_def list_all_length)
  then show "map (\<lambda>row. row ! j) (set_column M j v) ! i = v ! i"
    using assms i by (simp add: set_column_def mat_def)
qed

lemma set_column_other:
  assumes "mat r c M" "length v = r" "i \<noteq> j"
  shows "map (\<lambda>row. row ! i) (set_column M j v) = map (\<lambda>row. row ! i) M"
proof (rule nth_equalityI)
  show "length (map (\<lambda>row. row ! i) (set_column M j v)) = length (map (\<lambda>row. row ! i) M)"
    using assms by (simp add: set_column_def mat_def)
next
  fix k assume "k < length (map (\<lambda>row. row ! i) (set_column M j v))"
  then have "k < r" using assms by (simp add: set_column_def mat_def)
  then show "map (\<lambda>row. row ! i) (set_column M j v) ! k = map (\<lambda>row. row ! i) M ! k"
    using assms by (simp add: set_column_def mat_def)
qed

lemma mat_abs_matrix: "mat r c A \<Longrightarrow> mat r c (abs_matrix A)"
  by (simp add: mat_def abs_matrix_def list_all_iff)

text \<open>What one iteration of the loop leaves in the column it visits.\<close>

definition normalized :: "real list \<Rightarrow> real list" where
  "normalized c = (if sum_list c \<noteq> 0 then map (\<lambda>x. x / sum_list c) c else c)"

lemma normalize_step_ok:
  assumes "mat r c A" "j < c"
  shows "\<exists>A'. normalize_step j A = Inr A' \<and> mat r c A' \<and>
          map (\<lambda>row. row ! j) A' = normalized (map (\<lambda>row. row ! j) A) \<and>
          (\<forall>i. i \<noteq> j \<longrightarrow> map (\<lambda>row. row ! i) A' = map (\<lambda>row. row ! i) A)"
proof (cases "sum_list (map (\<lambda>row. row ! j) A) = 0")
  case True
  then show ?thesis using assms
    by (simp add: normalize_step_def column_mat normalized_def)
next
  case False
  let ?v = "normalized (map (\<lambda>row. row ! j) A)"
  have len: "length ?v = r" using assms by (simp add: normalized_def mat_def)
  have "normalize_step j A = Inr (set_column A j ?v)"
    using False assms by (simp add: normalize_step_def column_mat np_divide_def normalized_def)
  then show ?thesis
    using mat_set_column[OF assms(1) len] set_column_same[OF assms(1) len assms(2)]
      set_column_other[OF assms(1) len]
    by auto
qed

lemma normalize_loop_inv:
  assumes "mat r c A" "m \<le> c"
  shows "\<exists>A'. for_loop [0..<m] normalize_step A = Inr A' \<and> mat r c A' \<and>
          (\<forall>j<m. map (\<lambda>row. row ! j) A' = normalized (map (\<lambda>row. row ! j) A)) \<and>
          (\<forall>j\<ge>m. map (\<lambda>row. row ! j) A' = map (\<lambda>row. row ! j) A)"
  using assms(2)
proof (induction m)
  case 0
  then show ?case using assms(1) by simp
next
  case (Suc m)
  then obtain A1 where A1: "for_loop [0..<m] normalize_step A = Inr A1" "mat r c A1"
     "\<forall>j<m. map (\<lambda>row. row ! j) A1 = normalized (map (\<lambda>row. row ! j) A)"
     "\<forall>j\<ge>m. map (\<lambda>row. row ! j) A1 = map (\<lambda>row. row ! j) A"
    by auto
  from Suc.prems have "m < c" by simp
  from normalize_step_ok[OF A1(2) this] obtain A2 where A2:
    "normalize_step m A1 = Inr A2" "mat r c A2"
    "map (\<lambda>row. row ! m) A2 = normalized (map (\<lambda>row. row ! m) A1)"
    "\<forall>i. i \<noteq> m \<longrightarrow> map (\<lambda>row. row ! i) A2 = map (\<lambda>row. row ! i) A1"
    by auto
  have "for_loop [0..<Suc m] normalize_step A = Inr A2"
    using A1(1) A2(1) by (simp add: for_loop_append)
  moreover have "\<forall>j<Suc m. map (\<lambda>row. row ! j) A2 = normalized (map (\<lambda>row. row ! j) A)"
    using A1(3,4) A2(3,4) by (auto simp: less_Suc_eq)
  moreover have "\<forall>j\<ge>Suc m. map (\<lambda>row. row ! j) A2 = map (\<lambda>row. row ! j) A"
    using A1(4) A2(4) by auto
  ultimately show ?case using A2(2) by blast
qed

lemma sum_list_divide: "sum_list (map (\<lambda>x. x / d) xs) = sum_list xs / (d::real)"
  by (induction xs) (simp_all add: add_divide_distrib)

lemma normalized_sum: "sum_list c \<noteq> 0 \<Longrightarrow> sum_list (normalized c) = 1"
  by (simp add: normalized_def sum_list_divide)

lemma normalized_zero:
  assumes "\<forall>x\<in>set c. 0 \<le> x" "sum_list c = 0"
  shows "normalized c = map (\<lambda>_. 0) c"
proof -
  have "\<forall>x\<in>set c. x = 0" using assms by (simp add: sum_list_nonneg_eq_0_iff)
  then show ?thesis using assms(2) by (simp add: normalized_def map_idI)
qed

lemma normalize_step_no_fpe: "normalize_step j A \<noteq> Inl FloatingPointError"
  by (simp add: normalize_step_def column_def np_divide_def split: sum.splits)

lemma for_loop_never:
  assumes "\<And>j s. body j s \<noteq> Inl e"
  shows "for_loop js body s \<noteq> Inl e"
  using assms by (induction js arbitrary: s) (auto split: sum.splits)

subsection \<open>Claim C7: the normalisation never divides by zero\<close>

text \<open>
  C7. In the component-matching step of \<open>separate\<close>, a column of the absolute mixing
  matrix is divided by its sum only when that sum is not zero, so for any mixing matrix
  and any \<open>n_components\<close> the loop never divides by zero. For an \<open>r\<close> by \<open>c\<close> mixing
  matrix and \<open>n_components \<le> c\<close> the loop ends normally; each of the first
  \<open>n_components\<close> columns whose absolute sum is not zero becomes the absolute column
  divided by that sum and sums to 1, and each column whose absolute sum is zero is left
  all zero.
\<close>

theorem normalize_columns_never_divides_by_zero:
  "normalize_columns n A_sep \<noteq> Inl FloatingPointError \<and>
   (mat r c A_sep \<and> n \<le> c \<longrightarrow>
     (\<exists>A. normalize_columns n A_sep = Inr A \<and> mat r c A \<and>
        (\<forall>j<n. (sum_list (map (\<lambda>row. \<bar>row ! j\<bar>) A_sep) \<noteq> 0 \<longrightarrow>
                   map (\<lambda>row. row ! j) A =
                     map (\<lambda>row. \<bar>row ! j\<bar> / sum_list (map (\<lambda>row. \<bar>row ! j\<bar>) A_sep)) A_sep \<and>
                   sum_list (map (\<lambda>row. row ! j) A) = 1) \<and>
                (sum_list (map (\<lambda>row. \<bar>row ! j\<bar>) A_sep) = 0 \<longrightarrow>
                   map (\<lambda>row. row ! j) A = replicate r 0))))"
proof (intro conjI impI)
  show "normalize_columns n A_sep \<noteq> Inl FloatingPointError"
    unfolding normalize_columns_def by (rule for_loop_never) (rule normalize_step_no_fpe)
next
  assume h: "mat r c A_sep \<and> n \<le> c"
  let ?A0 = "abs_matrix A_sep"
  have m0: "mat r c ?A0" using h by (simp add: mat_abs_matrix)
  from normalize_loop_inv[OF m0, of n] h obtain A where A:
    "for_loop [0..<n] normalize_step ?A0 = Inr A" "mat r c A"
    "\<forall>j<n. map (\<lambda>row. row ! j) A = normalized (map (\<lambda>row. row ! j) ?A0)"
    by auto
  have col0: "map (\<lambda>row. row ! j) ?A0 = map (\<lambda>row. \<bar>row ! j\<bar>) A_sep" if "j < n" for j
    using h that by (auto simp: abs_matrix_def mat_def list_all_iff)
  have nonneg: "\<forall>x\<in>set (map (\<lambda>row. \<bar>row ! j\<bar>) A_sep). 0 \<le> x" for j by auto
  have len: "length A_sep = r" using h by (simp add: mat_def)
  have "\<forall>j<n. (sum_list (map (\<lambda>row. \<bar>row ! j\<bar>) A_sep) \<noteq> 0 \<longrightarrow>
                   map (\<lambda>row. row ! j) A =
                     map (\<lambda>row. \<bar>row ! j\<bar> / sum_list (map (\<lambda>row. \<bar>row ! j\<bar>) A_sep)) A_sep \<and>
                   sum_list (map (\<lambda>row. row ! j) A) = 1) \<and>
                (sum_list (map (\<lambda>row. \<bar>row ! j\<bar>) A_sep) = 0 \<longrightarrow>
                   map (\<lambda>row. row ! j) A = replicate r 0)"
  proof (intro allI impI conjI)
    fix j assume j: "j < n" and nz: "sum_list (map (\<lambda>row. \<bar>row ! j\<bar>) A_sep) \<noteq> 0"
    show "map (\<lambda>row. row ! j) A =
            map (\<lambda>row. \<bar>row ! j\<bar> / sum_list (map (\<lambda>row. \<bar>row ! j\<bar>) A_sep)) A_sep"
      using A(3) j nz col0[OF j] by (simp add: normalized_def o_def)
    show "sum_list (map (\<lambda>row. row ! j) A) = 1"
      using A(3) j nz col0[OF j] normalized_sum[of "map (\<lambda>row. \<bar>row ! j\<bar>) A_sep"] by simp
  next
    fix j assume j: "j < n" and z: "sum_list (map (\<lambda>row. \<bar>row ! j\<bar>) A_sep) = 0"
    show "map (\<lambda>row. row ! j) A = replicate r 0"
      using A(3) j col0[OF j] normalized_zero[OF nonneg z] len
      by (simp add: map_replicate_const)
  qed
  then show "\<exists>A. normalize_columns n A_sep = Inr A \<and> mat r c A \<and>
        (\<forall>j<n. (sum_list (map (\<lambda>row. \<bar>row ! j\<bar>) A_sep) \<noteq> 0 \<longrightarrow>
                   map (\<lambda>row. row ! j) A =
                     map (\<lambda>row. \<bar>row ! j\<bar> / sum_list (map (\<lambda>row. \<bar>row ! j\<bar>) A_sep)) A_sep \<and>
                   sum_list (map (\<lambda>row. row ! j) A) = 1) \<and>
                (sum_list (map (\<lambda>row. \<bar>row ! j\<bar>) A_sep) = 0 \<longrightarrow>
                   map (\<lambda>row. row ! j) A = replicate r 0))"
    using A(1,2) unfolding normalize_columns_def by blast
qed

theorem normalize_columns_never_divides_by_zero_witness:
  "mat 2 2 [[1, 0], [-3, 0::real]] \<and>
   (\<exists>A. normalize_columns 2 [[1, 0], [-3, 0]] = Inr A \<and> mat 2 2 A \<and>
        map (\<lambda>row. row ! 0) A = [1 / 4, 3 / 4] \<and>
        sum_list (map (\<lambda>row. row ! 0) A) = 1 \<and>
        map (\<lambda>row. row ! 1) A = [0, 0]) \<and>
   normalize_columns 2 [[1, 0], [-3, 0]] \<noteq> Inl FloatingPointError"
proof -
  have m: "mat 2 2 [[1, 0], [-3, 0::real]] \<and> (2::nat) \<le> 2" by (simp add: mat_def)
  from normalize_columns_never_divides_by_zero[of 2 "[[1, 0], [-3, 0]]" 2 2] m
  obtain A where A: "normalize_columns 2 [[1, 0], [-3, 0]] = Inr A" "mat 2 2 A"
    "\<forall>j<2. (sum_list (map (\<lambda>row. \<bar>row ! j\<bar>) [[1, 0], [-3, 0::real]]) \<noteq> 0 \<longrightarrow>
                   map (\<lambda>row. row ! j) A =
                     map (\<lambda>row. \<bar>row ! j\<bar> / sum_list (map (\<lambda>row. \<bar>row ! j\<bar>) [[1, 0], [-3, 0::real]])) [[1, 0], [-3, 0]] \<and>
                   sum_list (map (\<lambda>row. row ! j) A) = 1) \<and>
                (sum_list (map (\<lambda>row. \<bar>row ! j\<bar>) [[1, 0], [-3, 0::real]]) = 0 \<longrightarrow>
                   map (\<lambda>row. row ! j) A = replicate 2 0)"
    and nf: "normalize_columns 2 [[1, 0], [-3, 0]] \<noteq> Inl FloatingPointError"
    by blast
  from A(3) have "map (\<lambda>row. row ! 0) A = [1 / 4, 3 / 4] \<and> sum_list (map (\<lambda>row. row ! 0) A) = 1"
    by (elim allE[of _ 0]) simp
  moreover from A(3) have "map (\<lambda>row. row ! 1) A = [0, 0]"
    by (elim allE[of _ 1]) (simp add: numeral_2_eq_2)
  ultimately show ?thesis using m A(1,2) nf by simp
qed

section \<open>ROI input dispatch: \<open>rois2masks\<close> (extraction.py)\<close>

text \<open>
  An array-like ROI is known here by its numpy shape and its flattened values. The
  \<open>rois\<close> argument is dynamically typed: a string (a path to an ImageJ zip file), a
  sequence in the sense of \<open>collections.abc.Sequence\<close> (a list or tuple), or any other
  object (for instance a numpy array or a dict, neither of which is an \<open>abc.Sequence\<close>).
\<close>

datatype ndarray = NDArray (shape: "nat list") (flat: "real list")

datatype rois_arg = Path string | Seq "ndarray list" | Other

text \<open>
  The image data as each handler holds it. \<open>DataHandlerTifffile\<close> keeps a 3D numpy array
  shaped (frames, y, x); \<open>DataHandlerPillow\<close> keeps a \<open>PIL.Image\<close> handle whose \<open>size\<close>
  (here \<open>size'\<close>) is (width, height) and whose frames are decoded on demand.
\<close>

record 'a array3 =
  shape3 :: "nat list"
  planes :: "'a matrix list"

record 'a pil_image =
  size' :: "nat \<times> nat"
  n_frames :: nat
  pil_frames :: "'a matrix list"

text \<open>
  The body shared, line for line, by \<open>DataHandlerTifffile.rois2masks\<close> (lines 187 to 204)
  and \<open>DataHandlerPillow.rois2masks\<close> (lines 317 to 334), after \<open>shape\<close> has been read
  from the data. \<open>readrois\<close> and \<open>getmasks\<close> are the functions of \<open>fissa.roitools\<close>, taken
  as parameters. \<open>np.shape(rois[0])[1]\<close> is evaluated first and raises IndexError on an
  array of fewer than two dimensions, as \<open>rois[0]\<close> does on an empty sequence.
\<close>

definition rois2masks_body ::
  "(string \<Rightarrow> error + ndarray list) \<Rightarrow> (ndarray list \<Rightarrow> nat list \<Rightarrow> error + ndarray list) \<Rightarrow>
   rois_arg \<Rightarrow> nat list \<Rightarrow> error + ndarray list" where
  "rois2masks_body readrois getmasks rois shp =
     (case (case rois of
              Path p \<Rightarrow> (case readrois p of Inl e \<Rightarrow> Inl e | Inr xs \<Rightarrow> Inr (Seq xs))
            | _ \<Rightarrow> Inr rois) of
        Inl e \<Rightarrow> Inl e
      | Inr (Seq xs) \<Rightarrow>
          (case item xs 0 of
             Inl e \<Rightarrow> Inl e
           | Inr r0 \<Rightarrow>
               (case item (shape r0) 1 of
                  Inl e \<Rightarrow> Inl e
                | Inr d1 \<Rightarrow>
                    if d1 = 2 \<or> shape r0 ! 0 = 2 then getmasks xs shp
                    else if shape r0 = shp then Inr xs
                    else Inl ValueError))
      | Inr _ \<Rightarrow> Inl TypeError)"

text \<open>\<open>shape = data.shape[1:]\<close> for the tifffile handler.\<close>

definition tifffile_rois2masks ::
  "(string \<Rightarrow> error + ndarray list) \<Rightarrow> (ndarray list \<Rightarrow> nat list \<Rightarrow> error + ndarray list) \<Rightarrow>
   rois_arg \<Rightarrow> 'a array3 \<Rightarrow> error + ndarray list" where
  "tifffile_rois2masks readrois getmasks rois data =
     rois2masks_body readrois getmasks rois (drop 1 (shape3 data))"

text \<open>\<open>shape = data.size[::-1]\<close> for the Pillow handler.\<close>

definition pillow_rois2masks ::
  "(string \<Rightarrow> error + ndarray list) \<Rightarrow> (ndarray list \<Rightarrow> nat list \<Rightarrow> error + ndarray list) \<Rightarrow>
   rois_arg \<Rightarrow> 'a pil_image \<Rightarrow> error + ndarray list" where
  "pillow_rois2masks readrois getmasks rois data =
     rois2masks_body readrois getmasks rois [snd (size' data), fst (size' data)]"


lemma rois2masks_body_other: "rois2masks_body rd gm Other shp = Inl TypeError"
  by (simp add: rois2masks_body_def)

lemma rois2masks_body_path:
  "rois2masks_body rd gm (Path p) shp =
     (case rd p of Inl e \<Rightarrow> Inl e | Inr xs \<Rightarrow> rois2masks_body rd gm (Seq xs) shp)"
  by (simp add: rois2masks_body_def split: sum.splits)

lemma rois2masks_body_seq:
  "2 \<le> length (shape r0) \<Longrightarrow>
     rois2masks_body rd gm (Seq (r0 # rs)) shp =
       (if shape r0 ! 1 = 2 \<or> shape r0 ! 0 = 2 then gm (r0 # rs) shp
        else if shape r0 = shp then Inr (r0 # rs)
        else Inl ValueError)"
  by (simp add: rois2masks_body_def item_def)

text \<open>
  C6 (as stated, refuted). With a frame shape of 2 by 3, a mask of exactly the frame's
  shape is a "2 by N" array too: the polygon test comes first, so the handler passes the
  mask to the rasteriser instead of returning it. Here the rasteriser is a stand-in that
  returns one empty array per ROI.
\<close>

theorem rois2masks_frame_shaped_mask_counterexample:
  "shape (NDArray [2, 3] [1, 0, 0, 0, 1, 0]) =
     drop 1 (shape3 \<lparr>shape3 = [1, 2, 3], planes = [[[5, 6, 7], [8, 9, 10::real]]]\<rparr>) \<and>
   tifffile_rois2masks (\<lambda>p. Inr []) (\<lambda>rois shp. Inr (map (\<lambda>r. NDArray shp []) rois))
     (Seq [NDArray [2, 3] [1, 0, 0, 0, 1, 0]])
     \<lparr>shape3 = [1, 2, 3], planes = [[[5, 6, 7], [8, 9, 10::real]]]\<rparr>
   \<noteq> Inr [NDArray [2, 3] [1, 0, 0, 0, 1, 0]] \<and>
   pillow_rois2masks (\<lambda>p. Inr []) (\<lambda>rois shp. Inr (map (\<lambda>r. NDArray shp []) rois))
     (Seq [NDArray [2, 3] [1, 0, 0, 0, 1, 0]])
     \<lparr>size' = (3, 2), n_frames = 1, pil_frames = [[[5, 6, 7], [8, 9, 10::real]]]\<rparr>
   \<noteq> Inr [NDArray [2, 3] [1, 0, 0, 0, 1, 0]]"
  by (simp add: tifffile_rois2masks_def pillow_rois2masks_def rois2masks_body_def item_def)

text \<open>
  A first element of fewer than two dimensions is not met by the final ValueError either:
  the lookup \<open>np.shape(rois[0])[1]\<close> raises IndexError before any shape is compared.
\<close>

lemma rois2masks_one_dimensional_index_error:
  "tifffile_rois2masks (\<lambda>p. Inr []) (\<lambda>rois shp. Inr rois) (Seq [NDArray [3] [1, 2, 3]])
     \<lparr>shape3 = [1, 2, 3], planes = [[[5, 6, 7], [8, 9, 10::real]]]\<rparr> = Inl IndexError"
  by (simp add: tifffile_rois2masks_def rois2masks_body_def item_def)

text \<open>
  C6 (amended). For both handlers: an input that is neither a string nor a sequence raises
  TypeError; a path is read with \<open>readrois\<close> and its ROIs dispatched like a sequence; a
  sequence whose first element has at least two dimensions, the first or second of them
  equal to 2, is passed to the rasteriser \<open>getmasks\<close> with the frame shape (this covers
  every N by 2 and 2 by N polygon, and takes precedence over the mask test); otherwise, if
  the first element's shape equals the frame shape, the sequence is returned unchanged as
  masks; and any other first element of at least two dimensions raises ValueError.
\<close>

theorem rois2masks_dispatch:
  "tifffile_rois2masks rd gm Other (data :: 'a array3) = Inl TypeError \<and>
   pillow_rois2masks rd gm Other (img :: 'a pil_image) = Inl TypeError \<and>
   tifffile_rois2masks rd gm (Path p) data =
     (case rd p of Inl e \<Rightarrow> Inl e | Inr xs \<Rightarrow> tifffile_rois2masks rd gm (Seq xs) data) \<and>
   pillow_rois2masks rd gm (Path p) img =
     (case rd p of Inl e \<Rightarrow> Inl e | Inr xs \<Rightarrow> pillow_rois2masks rd gm (Seq xs) img) \<and>
   (2 \<le> length (shape r0) \<longrightarrow>
      tifffile_rois2masks rd gm (Seq (r0 # rs)) data =
        (if shape r0 ! 1 = 2 \<or> shape r0 ! 0 = 2 then gm (r0 # rs) (drop 1 (shape3 data))
         else if shape r0 = drop 1 (shape3 data) then Inr (r0 # rs)
         else Inl ValueError) \<and>
      pillow_rois2masks rd gm (Seq (r0 # rs)) img =
        (if shape r0 ! 1 = 2 \<or> shape r0 ! 0 = 2
         then gm (r0 # rs) [snd (size' img), fst (size' img)]
         else if shape r0 = [snd (size' img), fst (size' img)] then Inr (r0 # rs)
         else Inl ValueError))"
  unfolding tifffile_rois2masks_def pillow_rois2masks_def
  by (simp add: rois2masks_body_other rois2masks_body_path rois2masks_body_seq split: sum.splits)

theorem rois2masks_dispatch_witness:
  "tifffile_rois2masks (\<lambda>p. Inr []) (\<lambda>rois shp. Inr (map (\<lambda>r. NDArray shp []) rois))
     (Seq [NDArray [4, 2] [0, 0, 0, 1, 1, 1, 1, 0]])
     \<lparr>shape3 = [1, 8, 17], planes = [[] :: real matrix]\<rparr> = Inr [NDArray [8, 17] []] \<and>
   pillow_rois2masks (\<lambda>p. Inr []) (\<lambda>rois shp. Inr (map (\<lambda>r. NDArray shp []) rois))
     (Seq [NDArray [8, 17] []])
     \<lparr>size' = (17, 8), n_frames = 1, pil_frames = [[] :: real matrix]\<rparr>
     = Inr [NDArray [8, 17] []] \<and>
   tifffile_rois2masks (\<lambda>p. Inr []) (\<lambda>rois shp. Inr (map (\<lambda>r. NDArray shp []) rois))
     (Seq [NDArray [8, 16] []])
     \<lparr>shape3 = [1, 8, 17], planes = [[] :: real matrix]\<rparr> = Inl ValueError \<and>
   pillow_rois2masks (\<lambda>p. Inr []) (\<lambda>rois shp. Inr (map (\<lambda>r. NDArray shp []) rois)) Other
     \<lparr>size' = (17, 8), n_frames = 1, pil_frames = [[] :: real matrix]\<rparr> = Inl TypeError"
proof -
  let ?rd = "\<lambda>p :: string. Inr [] :: error + ndarray list"
  let ?gm = "\<lambda>(rois :: ndarray list) shp. Inr (map (\<lambda>r. NDArray shp []) rois) :: error + ndarray list"
  let ?d = "\<lparr>shape3 = [1, 8, 17], planes = [[] :: real matrix]\<rparr>"
  let ?i = "\<lparr>size' = (17, 8), n_frames = 1, pil_frames = [[] :: real matrix]\<rparr>"
  have a: "(2::nat) \<le> length (shape (NDArray [4, 2] [0, 0, 0, 1, 1, 1, 1, 0]))" by simp
  have b: "(2::nat) \<le> length (shape (NDArray [8, 17] []))" by simp
  have c: "(2::nat) \<le> length (shape (NDArray [8, 16] []))" by simp
  show ?thesis
    using rois2masks_dispatch[of ?rd ?gm ?d ?i "[]" "NDArray [4, 2] [0, 0, 0, 1, 1, 1, 1, 0]" "[]"]
      rois2masks_dispatch[of ?rd ?gm ?d ?i "[]" "NDArray [8, 17] []" "[]"]
      rois2masks_dispatch[of ?rd ?gm ?d ?i "[]" "NDArray [8, 16] []" "[]"] a b c
    by simp
qed

section \<open>Explicit saving of a stage (core.py, known from the spec and test_core.py)\<close>

text \<open>
  Modelled from the spec: the experiment's cache directory and the two explicit save
  operations \<open>save_prep\<close> and \<open>save_separated\<close> of \<open>core.Experiment\<close>. core.py is not
  among the sources; test_core.py calls both operations. The spec: "An explicit save to
  an arbitrary destination operation exists for each stage independently; invoking it
  without either a configured cache directory or an explicit destination fails with an
  invalid-argument error." A snapshot is stored either at the explicit destination or in
  the stage's file under the cache directory; the file store is a map from locations to
  snapshots.
\<close>

datatype stage = Preparation | Separation

datatype location = Destination string | CacheFile string stage

record ('p, 's) Experiment =
  folder :: "string option"
  prep_data :: "'p option"
  sep_data :: "'s option"

datatype ('p, 's) snapshot = PrepSnapshot "'p option" | SepSnapshot "'s option"

definition save_prep ::
  "('p, 's) Experiment \<Rightarrow> string option \<Rightarrow> (location \<rightharpoonup> ('p, 's) snapshot) \<Rightarrow>
   error + (location \<rightharpoonup> ('p, 's) snapshot)" where
  "save_prep ex destination files =
     (case destination of
        Some d \<Rightarrow> Inr (files(Destination d \<mapsto> PrepSnapshot (prep_data ex)))
      | None \<Rightarrow>
          (case folder ex of
             None \<Rightarrow> Inl ValueError
           | Some f \<Rightarrow> Inr (files(CacheFile f Preparation \<mapsto> PrepSnapshot (prep_data ex)))))"

definition save_separated ::
  "('p, 's) Experiment \<Rightarrow> string option \<Rightarrow> (location \<rightharpoonup> ('p, 's) snapshot) \<Rightarrow>
   error + (location \<rightharpoonup> ('p, 's) snapshot)" where
  "save_separated ex destination files =
     (case destination of
        Some d \<Rightarrow> Inr (files(Destination d \<mapsto> SepSnapshot (sep_data ex)))
      | None \<Rightarrow>
          (case folder ex of
             None \<Rightarrow> Inl ValueError
           | Some f \<Rightarrow> Inr (files(CacheFile f Separation \<mapsto> SepSnapshot (sep_data ex)))))"

text \<open>
  C9. For an experiment constructed without a cache directory, each stage's explicit save
  operation called without a destination fails with ValueError (and writes nothing).
\<close>

theorem save_without_destination_or_folder:
  "folder ex = None \<Longrightarrow>
     save_prep ex None files = Inl ValueError \<and> save_separated ex None files = Inl ValueError"
  by (simp add: save_prep_def save_separated_def)

theorem save_without_destination_or_folder_witness:
  "folder \<lparr>folder = None, prep_data = Some (1::nat), sep_data = Some (2::nat)\<rparr> = None \<and>
   save_prep \<lparr>folder = None, prep_data = Some (1::nat), sep_data = Some (2::nat)\<rparr> None Map.empty
     = Inl ValueError \<and>
   save_separated \<lparr>folder = None, prep_data = Some (1::nat), sep_data = Some (2::nat)\<rparr> None
     Map.empty = Inl ValueError"
  using save_without_destination_or_folder
    [of "\<lparr>folder = None, prep_data = Some (1::nat), sep_data = Some (2::nat)\<rparr>" Map.empty]
  by simp

section \<open>Trace extraction: \<open>extracttraces\<close> of the two handlers (extraction.py)\<close>









subsection \<open>The two reductions of numpy on single-precision pixels\<close>















subsection \<open>Loops without and with an exception\<close>

lemma for_loop_pure:
  "(\<And>j s. j \<in> set js \<Longrightarrow> body j s = Inr (g j s)) \<Longrightarrow> for_loop js body s = Inr (fold g js s)"
  by (induction js arbitrary: s) simp_all





lemma map_nth_upt: "map (\<lambda>f. g (fs ! f)) [0..<length fs] = map g fs"
  by (rule nth_equalityI) simp_all










subsection \<open>Claim C8: when the two handlers extract the same traces\<close>








section \<open>Neuropil subtraction: \<open>subtract_pil\<close> and \<open>subtract_dict\<close> (neuropil.py)\<close>

text \<open>
  A float of a signal is an exact real or nan: \<open>Some x\<close> is the finite value \<open>x\<close>, \<open>None\<close> is
  nan, which every arithmetic operation propagates. Rounding, overflow and the infinities
  are not modelled. \<open>np_mean\<close> of an empty array is nan, as in numpy.
\<close>

type_synonym fl = "real option"

definition fl2 :: "(real \<Rightarrow> real \<Rightarrow> real) \<Rightarrow> fl \<Rightarrow> fl \<Rightarrow> fl" where
  "fl2 f x y =
     (case x of None \<Rightarrow> None | Some a \<Rightarrow> (case y of None \<Rightarrow> None | Some b \<Rightarrow> Some (f a b)))"

definition np_mean :: "fl list \<Rightarrow> fl" where
  "np_mean xs =
     (if xs = [] \<or> None \<in> set xs then None
      else Some (sum_list (map the xs) / real (length xs)))"

text \<open>\<open>x * pil\<close> for a Python float \<open>x\<close> and a 1D array.\<close>

definition scale :: "real \<Rightarrow> fl list \<Rightarrow> fl list" where
  "scale x v = map (fl2 (*) (Some x)) v"

text \<open>
  An elementwise operation on two 1D arrays under numpy's broadcasting: equal lengths, or
  one of the two of length 1; any other pair of lengths raises ValueError.
\<close>

definition broadcast :: "(fl \<Rightarrow> fl \<Rightarrow> fl) \<Rightarrow> fl list \<Rightarrow> fl list \<Rightarrow> error + fl list" where
  "broadcast f xs ys =
     (if length xs = length ys then Inr (map (\<lambda>(x, y). f x y) (zip xs ys))
      else if length xs = 1 then Inr (map (f (hd xs)) ys)
      else if length ys = 1 then Inr (map (\<lambda>x. f x (hd ys)) xs)
      else Inl ValueError)"

text \<open>
  \<open>np.corrcoef(x, y)[0, 1]\<close>: the Pearson correlation coefficient of two samples of the
  same length (numpy raises ValueError when the lengths differ), clipped to [-1, 1]. It
  is nan when an input holds a nan or when one of the two has zero variance, which
  includes samples of fewer than two values.
\<close>

definition corrcoef :: "fl list \<Rightarrow> fl list \<Rightarrow> error + fl" where
  "corrcoef xs ys =
     (if length xs \<noteq> length ys then Inl ValueError
      else if None \<in> set xs \<or> None \<in> set ys then Inr None
      else
        let x = map the xs; y = map the ys;
            mx = sum_list x / real (length x); my = sum_list y / real (length y);
            cxy = sum_list (map (\<lambda>(a, b). (a - mx) * (b - my)) (zip x y));
            cxx = sum_list (map (\<lambda>a. (a - mx) * (a - mx)) x);
            cyy = sum_list (map (\<lambda>b. (b - my) * (b - my)) y)
        in if cxx = 0 \<or> cyy = 0 then Inr None
           else Inr (Some (max (- 1) (min 1 (cxy / sqrt cxx / sqrt cyy)))))"

text \<open>The objective \<open>mincorr\<close> of lines 289 to 294.\<close>

definition mincorr :: "fl list \<Rightarrow> fl list \<Rightarrow> real \<Rightarrow> error + fl" where
  "mincorr sig pil x =
     (case broadcast (fl2 (-)) sig (scale x pil) of
        Inl e \<Rightarrow> Inl e
      | Inr sig' \<Rightarrow>
          (case corrcoef sig' pil of
             Inl e \<Rightarrow> Inl e
           | Inr corr \<Rightarrow> Inr (map_option (\<lambda>c. sqrt (c ^ 2)) corr)))"

text \<open>
  \<open>subtract_pil\<close>, lines 285 to 301. The first parameter is scipy's
  \<open>minimize_scalar(f, bounds=(lo, hi), method='bounded').x\<close>, a function of the objective
  and the bounds; an exception of the objective passes through it.
\<close>

definition subtract_pil ::
  "((real \<Rightarrow> error + fl) \<Rightarrow> real \<Rightarrow> real \<Rightarrow> error + real) \<Rightarrow>
   fl list \<Rightarrow> fl list \<Rightarrow> real \<Rightarrow> real \<Rightarrow> error + (fl list \<times> real)" where
  "subtract_pil minimize_scalar sig pil lower_bound upper_bound =
     (case minimize_scalar (mincorr sig pil) lower_bound upper_bound of
        Inl e \<Rightarrow> Inl e
      | Inr a \<Rightarrow>
          (case broadcast (fl2 (-)) sig (scale a pil) of
             Inl e \<Rightarrow> Inl e
           | Inr d \<Rightarrow> Inr (map (\<lambda>v. fl2 (+) v (np_mean (scale a pil))) d, a)))"

text \<open>
  \<open>subtract_dict\<close>, lines 320 to 326. The dict \<open>S\<close> is a finite map from Python ints to 2D
  arrays; \<open>S[i][:, 1:]\<close> drops the first entry of every row and \<open>np.mean(..., axis=1)\<close>
  averages each row. \<open>subtract_pil\<close> is called with its default bounds 0 and 1.5.
\<close>

definition subtract_dict ::
  "((real \<Rightarrow> error + fl) \<Rightarrow> real \<Rightarrow> real \<Rightarrow> error + real) \<Rightarrow>
   (int \<rightharpoonup> fl matrix) \<Rightarrow> int \<Rightarrow> error + ((int \<rightharpoonup> fl list) \<times> (int \<rightharpoonup> real))" where
  "subtract_dict minimize_scalar S n_noncell =
     for_loop [n_noncell..int (card (dom S)) - 1]
       (\<lambda>i (S_subtract, a).
          case S i of
            None \<Rightarrow> Inl KeyError
          | Some M \<Rightarrow>
              (case column M 0 of
                 Inl e \<Rightarrow> Inl e
               | Inr sig \<Rightarrow>
                   (case subtract_pil minimize_scalar sig (map (\<lambda>row. np_mean (drop 1 row)) M)
                           0 1.5 of
                      Inl e \<Rightarrow> Inl e
                    | Inr (sig_corrected, g) \<Rightarrow> Inr (S_subtract(i \<mapsto> sig_corrected), a(i \<mapsto> g)))))
       (Map.empty, Map.empty)"

text \<open>
  What the model asks of the bounded minimiser: for bounds in order and an objective that
  does not raise, it returns a point within the bounds.
\<close>

definition bounded_minimizer ::
  "((real \<Rightarrow> error + fl) \<Rightarrow> real \<Rightarrow> real \<Rightarrow> error + real) \<Rightarrow> bool" where
  "bounded_minimizer opt =
     (\<forall>f lo hi. lo \<le> hi \<and> (\<forall>x. \<exists>v. f x = Inr v) \<longrightarrow>
        (\<exists>a. opt f lo hi = Inr a \<and> lo \<le> a \<and> a \<le> hi))"








lemma mincorr_total:
  "length sig = length pil \<Longrightarrow> \<exists>v. mincorr sig pil x = Inr v"
  by (simp add: mincorr_def broadcast_def scale_def corrcoef_def Let_def)

lemma broadcast_scale:
  "length sig = length pil \<Longrightarrow>
     broadcast (fl2 (-)) sig (scale x pil) =
       Inr (map (\<lambda>(s, p). fl2 (-) s (fl2 (*) (Some x) p)) (zip sig pil))"
proof -
  have "(\<lambda>(x, y). fl2 (-) x y) \<circ> (\<lambda>(s, p). (s, fl2 (*) (Some x) p)) =
        (\<lambda>(s, p). fl2 (-) s (fl2 (*) (Some x) p))"
    by (auto simp: fun_eq_iff)
  then show "length sig = length pil \<Longrightarrow> ?thesis"
    by (simp add: broadcast_def scale_def zip_map2)
qed


lemma np_mean_Some:
  "np_mean (map Some xs) = (if xs = [] then None else Some (sum_list xs / real (length xs)))"
  by (auto simp: np_mean_def o_def)





lemma subtract_pil_ok:
  assumes "bounded_minimizer opt" "length sig = length pil" "lower_bound \<le> upper_bound"
  shows "\<exists>a. subtract_pil opt sig pil lower_bound upper_bound =
               Inr (map (\<lambda>v. fl2 (+) v (np_mean (scale a pil)))
                      (map (\<lambda>(s, p). fl2 (-) s (fl2 (*) (Some a) p)) (zip sig pil)), a) \<and>
             opt (mincorr sig pil) lower_bound upper_bound = Inr a \<and>
             lower_bound \<le> a \<and> a \<le> upper_bound"
proof -
  have "\<forall>x. \<exists>v. mincorr sig pil x = Inr v"
    using mincorr_total[OF assms(2)] by blast
  with assms(1,3) obtain a where a:
    "opt (mincorr sig pil) lower_bound upper_bound = Inr a" "lower_bound \<le> a" "a \<le> upper_bound"
    unfolding bounded_minimizer_def by blast
  have "subtract_pil opt sig pil lower_bound upper_bound =
               Inr (map (\<lambda>v. fl2 (+) v (np_mean (scale a pil)))
                      (map (\<lambda>(s, p). fl2 (-) s (fl2 (*) (Some a) p)) (zip sig pil)), a)"
    by (simp add: subtract_pil_def a(1) broadcast_scale[OF assms(2)])
  with a show ?thesis by blast
qed

subsection \<open>The objective is the absolute Pearson correlation\<close>









subsection \<open>Claim C4: the gain minimises the correlation within the bounds, the mean is kept\<close>




subsection \<open>Claim C10: the keys and entries of \<open>subtract_dict\<close>\<close>

text \<open>
  A stand-in for the bounded minimiser that keeps to its bounds: the midpoint of the
  interval, and ValueError for bounds out of order as scipy raises.
\<close>

definition midpoint_minimizer :: "(real \<Rightarrow> error + fl) \<Rightarrow> real \<Rightarrow> real \<Rightarrow> error + real" where
  "midpoint_minimizer f lo hi = (if lo \<le> hi then Inr ((lo + hi) / 2) else Inl ValueError)"

lemma bounded_midpoint_minimizer: "bounded_minimizer midpoint_minimizer"
  unfolding bounded_minimizer_def
proof (intro allI impI)
  fix f :: "real \<Rightarrow> error + fl" and lo hi :: real
  assume "lo \<le> hi \<and> (\<forall>x. \<exists>v. f x = Inr v)"
  then show "\<exists>a. midpoint_minimizer f lo hi = Inr a \<and> lo \<le> a \<and> a \<le> hi"
    by (intro exI[of _ "(lo + hi) / 2"]) (simp add: midpoint_minimizer_def)
qed

lemma fold_two_maps:
  "fold (\<lambda>i (m1, m2). (m1(i \<mapsto> f i), m2(i \<mapsto> g i))) js (m1, m2) =
     ((\<lambda>k. if k \<in> set js then Some (f k) else m1 k),
      (\<lambda>k. if k \<in> set js then Some (g k) else m2 k))"
proof (induction js arbitrary: m1 m2 rule: rev_induct)
  case Nil
  then show ?case by simp
next
  case (snoc j js)
  then show ?case by (auto simp: fun_eq_iff)
qed

text \<open>
  C10. For a dict \<open>S\<close> whose keys are exactly 0 to \<open>len(S) - 1\<close>, an \<open>n_noncell\<close> with
  \<open>0 \<le> n_noncell \<le> len(S)\<close>, matrices that have a column 0 at the indices processed, and
  a bounded minimiser that keeps to its bounds, \<open>subtract_dict\<close> returns two dicts whose
  key sets are both exactly \<open>n_noncell\<close> to \<open>len(S) - 1\<close> (the skipped indices are
  absent), and the entries at index \<open>i\<close> are the two results of \<open>subtract_pil\<close> applied to
  column 0 of \<open>S[i]\<close> and the row-wise mean of its columns 1 to the end, with the bounds
  0 and 1.5.
\<close>

theorem subtract_dict_keys_and_entries:
  assumes "bounded_minimizer opt" "dom S = {0..<int n}" "0 \<le> n_noncell" "n_noncell \<le> int n"
    and "\<forall>i\<in>{n_noncell..<int n}. \<forall>M. S i = Some M \<longrightarrow> list_all (\<lambda>row. row \<noteq> []) M"
  shows "\<exists>S_subtract a.
           subtract_dict opt S n_noncell = Inr (S_subtract, a) \<and>
           dom S_subtract = {n_noncell..<int n} \<and> dom a = {n_noncell..<int n} \<and>
           (\<forall>i\<in>{n_noncell..<int n}. \<exists>M sig_corrected g.
              S i = Some M \<and> S_subtract i = Some sig_corrected \<and> a i = Some g \<and>
              subtract_pil opt (map (\<lambda>row. row ! 0) M) (map (\<lambda>row. np_mean (drop 1 row)) M)
                0 1.5 = Inr (sig_corrected, g))"
proof -
  let ?rng = "{n_noncell..<int n}"
  let ?js = "[n_noncell..int (card (dom S)) - 1]"
  let ?sp = "\<lambda>i. subtract_pil opt (map (\<lambda>row. row ! 0) (the (S i)))
                    (map (\<lambda>row. np_mean (drop 1 row)) (the (S i))) 0 1.5"
  let ?f = "\<lambda>i. fst (projr (?sp i))"
  let ?g = "\<lambda>i. snd (projr (?sp i))"
  have card: "card (dom S) = n" using assms(2) by simp
  have js: "set ?js = ?rng" unfolding card by auto
  have step: "\<exists>M. S i = Some M \<and> column M 0 = Inr (map (\<lambda>row. row ! 0) M) \<and>
                ?sp i = Inr (?f i, ?g i)" if "i \<in> ?rng" for i
  proof -
    from that assms(2,3) have "i \<in> dom S" by auto
    then obtain M where M: "S i = Some M" by auto
    with assms(5) that have ne: "list_all (\<lambda>row. row \<noteq> []) M" by blast
    then have c: "column M 0 = Inr (map (\<lambda>row. row ! 0) M)"
      by (simp add: column_def list_all_iff)
    have "length (map (\<lambda>row. row ! 0) M) = length (map (\<lambda>row. np_mean (drop 1 row)) M)"
      by simp
    from subtract_pil_ok[OF assms(1) this, of 0 "1.5"] obtain r where
      "subtract_pil opt (map (\<lambda>row. row ! 0) M) (map (\<lambda>row. np_mean (drop 1 row)) M) 0 1.5 = Inr r"
      by auto
    then show ?thesis using M c by simp
  qed
  have "for_loop ?js
       (\<lambda>i (S_subtract, a).
          case S i of
            None \<Rightarrow> Inl KeyError
          | Some M \<Rightarrow>
              (case column M 0 of
                 Inl e \<Rightarrow> Inl e
               | Inr sig \<Rightarrow>
                   (case subtract_pil opt sig (map (\<lambda>row. np_mean (drop 1 row)) M)
                           0 1.5 of
                      Inl e \<Rightarrow> Inl e
                    | Inr (sig_corrected, g) \<Rightarrow> Inr (S_subtract(i \<mapsto> sig_corrected), a(i \<mapsto> g)))))
       (Map.empty, Map.empty)
     = Inr (fold (\<lambda>i (m1, m2). (m1(i \<mapsto> ?f i), m2(i \<mapsto> ?g i))) ?js (Map.empty, Map.empty))"
  proof (rule for_loop_pure)
    fix j and s :: "(int \<rightharpoonup> fl list) \<times> (int \<rightharpoonup> real)"
    assume "j \<in> set ?js"
    then have "j \<in> ?rng" unfolding js .
    from step[OF this] obtain M where M: "S j = Some M"
      "column M 0 = Inr (map (\<lambda>row. row ! 0) M)" "?sp j = Inr (?f j, ?g j)" by blast
    from M(1,3) have sp: "subtract_pil opt (map (\<lambda>row. row ! 0) M)
        (map (\<lambda>row. np_mean (drop 1 row)) M) 0 1.5 = Inr (?f j, ?g j)" by simp
    show "(case s of (S_subtract, a) \<Rightarrow>
          case S j of
            None \<Rightarrow> Inl KeyError
          | Some M \<Rightarrow>
              (case column M 0 of
                 Inl e \<Rightarrow> Inl e
               | Inr sig \<Rightarrow>
                   (case subtract_pil opt sig (map (\<lambda>row. np_mean (drop 1 row)) M)
                           0 1.5 of
                      Inl e \<Rightarrow> Inl e
                    | Inr (sig_corrected, g) \<Rightarrow> Inr (S_subtract(j \<mapsto> sig_corrected), a(j \<mapsto> g)))))
          = Inr (case s of (m1, m2) \<Rightarrow> (m1(j \<mapsto> ?f j), m2(j \<mapsto> ?g j)))"
    proof -
      obtain sc gn where scg: "subtract_pil opt (map (\<lambda>row. row ! 0) M)
          (map (\<lambda>row. np_mean (drop 1 row)) M) 0 1.5 = Inr (sc, gn)"
        using sp by blast
      then have fg: "?f j = sc" "?g j = gn" using M(1) by simp_all
      show ?thesis
        unfolding fg using scg by (cases s) (simp add: M(1,2))
    qed
  qed
  then have res: "subtract_dict opt S n_noncell =
      Inr ((\<lambda>k. if k \<in> ?rng then Some (?f k) else None),
           (\<lambda>k. if k \<in> ?rng then Some (?g k) else None))"
    unfolding subtract_dict_def fold_two_maps js by simp
  have d1: "dom (\<lambda>k. if k \<in> ?rng then Some (?f k) else None) = ?rng"
    by (auto simp: dom_def)
  have d2: "dom (\<lambda>k. if k \<in> ?rng then Some (?g k) else None) = ?rng"
    by (auto simp: dom_def)
  have ent: "\<forall>i\<in>?rng. \<exists>M sig_corrected g.
              S i = Some M \<and> (if i \<in> ?rng then Some (?f i) else None) = Some sig_corrected \<and>
              (if i \<in> ?rng then Some (?g i) else None) = Some g \<and>
              subtract_pil opt (map (\<lambda>row. row ! 0) M) (map (\<lambda>row. np_mean (drop 1 row)) M)
                0 1.5 = Inr (sig_corrected, g)"
  proof
    fix i assume i: "i \<in> ?rng"
    from step[OF i] obtain M where M: "S i = Some M" "?sp i = Inr (?f i, ?g i)" by blast
    then show "\<exists>M sig_corrected g.
              S i = Some M \<and> (if i \<in> ?rng then Some (?f i) else None) = Some sig_corrected \<and>
              (if i \<in> ?rng then Some (?g i) else None) = Some g \<and>
              subtract_pil opt (map (\<lambda>row. row ! 0) M) (map (\<lambda>row. np_mean (drop 1 row)) M)
                0 1.5 = Inr (sig_corrected, g)"
      using i by simp
  qed
  show ?thesis
    using res d1 d2 ent by blast
qed

theorem subtract_dict_keys_and_entries_witness:
  "bounded_minimizer midpoint_minimizer \<and>
   dom [0 \<mapsto> [[Some 9]], 1 \<mapsto> [[Some 1, Some 1, Some 3], [Some 2, Some 2, Some 0]],
        2 \<mapsto> [[Some 4, Some 0 :: fl]]] = {0..<int 3} \<and>
   (\<exists>S_subtract a.
      subtract_dict midpoint_minimizer
        [0 \<mapsto> [[Some 9]], 1 \<mapsto> [[Some 1, Some 1, Some 3], [Some 2, Some 2, Some 0]],
         2 \<mapsto> [[Some 4, Some 0]]] 1 = Inr (S_subtract, a) \<and>
      dom S_subtract = {1..<int 3} \<and> dom a = {1..<int 3} \<and>
      S_subtract 1 = Some [Some (5 / 8), Some (19 / 8)] \<and> a 1 = Some (3 / 4) \<and>
      S_subtract 2 = Some [Some 4] \<and> a 2 = Some (3 / 4) \<and>
      S_subtract 0 = None \<and> a 0 = None)"
proof -
  let ?S = "[0 \<mapsto> [[Some 9]], 1 \<mapsto> [[Some 1, Some 1, Some 3], [Some 2, Some 2, Some 0]],
             2 \<mapsto> [[Some 4, Some 0 :: fl]]] :: int \<rightharpoonup> fl matrix"
  have d: "dom ?S = {0..<int 3}" by auto
  have b: "(0::int) \<le> 1" "(1::int) \<le> int 3" by simp_all
  have c: "\<forall>i\<in>{1..<int 3}. \<forall>M. ?S i = Some M \<longrightarrow> list_all (\<lambda>row. row \<noteq> []) M"
    by auto
  from subtract_dict_keys_and_entries[OF bounded_midpoint_minimizer d b c]
  obtain Ss a where r: "subtract_dict midpoint_minimizer ?S 1 = Inr (Ss, a)"
    "dom Ss = {1..<int 3}" "dom a = {1..<int 3}"
    and e: "\<forall>i\<in>{1..<int 3}. \<exists>M sig_corrected g.
              ?S i = Some M \<and> Ss i = Some sig_corrected \<and> a i = Some g \<and>
              subtract_pil midpoint_minimizer (map (\<lambda>row. row ! 0) M)
                (map (\<lambda>row. np_mean (drop 1 row)) M) 0 1.5 = Inr (sig_corrected, g)"
    by blast
  have "(1::int) \<in> {1..<int 3}" by simp
  with e have e1: "Ss 1 = Some [Some (5 / 8), Some (19 / 8)] \<and> a 1 = Some (3 / 4)"
    by (fastforce simp: subtract_pil_def midpoint_minimizer_def broadcast_def scale_def
        fl2_def np_mean_def)
  have "(2::int) \<in> {1..<int 3}" by simp
  with e have e2: "Ss 2 = Some [Some 4] \<and> a 2 = Some (3 / 4)"
    by (fastforce simp: subtract_pil_def midpoint_minimizer_def broadcast_def scale_def
        fl2_def np_mean_def)
  have "(0::int) \<notin> dom Ss" "(0::int) \<notin> dom a" unfolding r by simp_all
  then have e0: "Ss 0 = None \<and> a 0 = None" by blast
  show ?thesis
    using bounded_midpoint_minimizer d r e1 e2 e0 by blast
qed

section \<open>Source separation: \<open>separate\<close> (neuropil.py)\<close>

text \<open>Sequencing of fallible steps: an exception skips the rest.\<close>

definition ebind :: "error + 'a \<Rightarrow> ('a \<Rightarrow> error + 'b) \<Rightarrow> error + 'b" where
  "ebind m f = (case m of Inl e \<Rightarrow> Inl e | Inr x \<Rightarrow> f x)"

subsection \<open>The external solvers and the random generator\<close>

text \<open>
  What a fitted solver exposes: the transformed data (one row per sample, one column per
  component: \<open>fit_transform(S.T)\<close>, \<open>basis()\<close>), its weights as the solver stores them
  (\<open>ica.mixing_\<close>, regions by components; \<open>nmf.components_\<close> and \<open>coef()\<close>, components by
  regions) and its iteration count (\<open>n_iter_\<close>, \<open>summary()['n_iter']\<close>).
\<close>

record factorization =
  transformed :: "real matrix"
  weights :: "real matrix"
  iterations :: int

text \<open>
  The libraries \<open>separate\<close> calls, as functions of their arguments: sklearn's FastICA and
  NMF (data, n_components, max_iter, tol, random_state), nimfa's Nmf (data, max_iter,
  rank), the explained variance ratios of sklearn's PCA, and the sequence of values that
  \<open>rand.randint(8000)\<close> draws from numpy's global generator.
\<close>

record libs =
  FastICA :: "real matrix \<Rightarrow> int \<Rightarrow> int \<Rightarrow> real \<Rightarrow> int \<Rightarrow> error + factorization"
  NMF :: "real matrix \<Rightarrow> int \<Rightarrow> int \<Rightarrow> real \<Rightarrow> int \<Rightarrow> error + factorization"
  nimfa_Nmf :: "real matrix \<Rightarrow> int \<Rightarrow> int \<Rightarrow> error + factorization"
  PCA :: "real matrix \<Rightarrow> real list"
  randint :: "nat \<Rightarrow> int"

text \<open>
  The state outside the function: how many values have been drawn from the global
  generator, and the log of solver runs (the seed passed, if the solver takes one, and
  the iteration count it reported).
\<close>

record world =
  draws :: nat
  fit_log :: "(int option \<times> int) list"

subsection \<open>The retry loops, lines 105 to 134 and 139 to 167\<close>

text \<open>
  \<open>for ith_try in range(maxtries)\<close>: fit with the current seed; stop when the iteration
  count is below \<open>budget\<close> (\<open>maxiter\<close> for ICA, \<open>maxiter - 1\<close> for sklearn's NMF); otherwise,
  unless this was the last try, draw a new seed. The second argument from the right of
  the first equation counts the tries left. With no try at all the fitted object is
  unbound when it is read after the loop, which raises NameError.
\<close>

fun retry_loop ::
  "(int \<Rightarrow> error + factorization) \<Rightarrow> (nat \<Rightarrow> int) \<Rightarrow> int \<Rightarrow> nat \<Rightarrow> int \<Rightarrow> world \<Rightarrow>
   error + (factorization \<times> int \<times> world)" where
  "retry_loop fit rand budget 0 random_state w = Inl NameError"
| "retry_loop fit rand budget (Suc left) random_state w =
     (case fit random_state of
        Inl e \<Rightarrow> Inl e
      | Inr r \<Rightarrow>
          (let w' = w\<lparr>fit_log := fit_log w @ [(Some random_state, iterations r)]\<rparr> in
           if iterations r < budget then Inr (r, random_state, w')
           else if left = 0 then Inr (r, random_state, w')
           else retry_loop fit rand budget left (rand (draws w')) (w'\<lparr>draws := Suc (draws w')\<rparr>)))"

subsection \<open>Choosing the solver, lines 102 to 203\<close>

text \<open>
  \<open>n_components\<close> is a Python int or float. The result of the dispatch is \<open>S_sep\<close>, \<open>A_sep\<close>,
  the last iteration count, the last seed and the new outside state. A float that is not
  strictly between 0 and 1 reaches the solver and \<open>range()\<close> as it is; \<open>range()\<close> raises
  TypeError on a float.
\<close>

datatype ncomp = Count int | Fraction real

definition factorize ::
  "libs \<Rightarrow> world \<Rightarrow> real matrix \<Rightarrow> string \<Rightarrow> ncomp \<Rightarrow> int \<Rightarrow> real \<Rightarrow> int \<Rightarrow> int \<Rightarrow>
   error + (real matrix \<times> real matrix \<times> int \<times> int \<times> world)" where
  "factorize lib w S sep_method n_components maxiter tol random_state maxtries =
     (if sep_method \<noteq> ''ica'' \<and> sep_method \<noteq> ''nmf_sklearn'' \<and> sep_method \<noteq> ''nmf''
      then Inl ValueError
      else case n_components of
        Fraction x \<Rightarrow> Inl TypeError
      | Count n \<Rightarrow>
          if sep_method = ''ica'' then
            ebind (retry_loop (FastICA lib (transpose S) n maxiter tol) (randint lib) maxiter
                     (nat maxtries) random_state w)
              (\<lambda>(ica, random_state, w). Inr (transformed ica, weights ica, iterations ica, random_state, w))
          else if sep_method = ''nmf_sklearn'' then
            ebind (retry_loop (NMF lib (transpose S) n maxiter tol) (randint lib) (maxiter - 1)
                     (nat maxtries) random_state w)
              (\<lambda>(nmf, random_state, w).
                 Inr (transformed nmf, transpose (weights nmf), iterations nmf, random_state, w))
          else
            ebind (nimfa_Nmf lib (transpose S) maxiter n)
              (\<lambda>nmf_fit.
                 Inr (transformed nmf_fit, transpose (weights nmf_fit), iterations nmf_fit,
                      random_state, w\<lparr>fit_log := fit_log w @ [(None, iterations nmf_fit)]\<rparr>)))"

subsection \<open>Ordering and matching the components, lines 206 to 231\<close>

text \<open>
  \<open>np.argsort\<close>: the indices that sort the scores in ascending order. numpy does not fix
  the order of equal scores; here equal scores keep their index order (the insertion
  sort that numpy runs on short arrays). \<open>[::-1]\<close> reverses.
\<close>

definition argsort :: "real list \<Rightarrow> nat list" where
  "argsort scores = sort_key (\<lambda>i. scores ! i) [0..<length scores]"

definition component_order :: "nat \<Rightarrow> real matrix \<Rightarrow> error + nat list" where
  "component_order n A_sep =
     ebind (normalize_columns n A_sep) (\<lambda>A.
     ebind (row0 A) (\<lambda>scores. Inr (rev (argsort scores))))"

text \<open>
  The value added to the column after it has been stored: the primary signal's mean for
  ICA, that mean minus the column's own mean for the two NMF methods.
\<close>

definition recentre :: "string \<Rightarrow> fl \<Rightarrow> fl list \<Rightarrow> fl list" where
  "recentre sep_method primary_mean col =
     (if sep_method = ''ica'' then map (\<lambda>v. fl2 (+) v primary_mean) col
      else if sep_method = ''nmf'' \<or> sep_method = ''nmf_sklearn''
      then map (\<lambda>v. fl2 (+) v (fl2 (-) primary_mean (np_mean col))) col
      else col)"

definition match_step ::
  "string \<Rightarrow> real matrix \<Rightarrow> real matrix \<Rightarrow> real matrix \<Rightarrow> nat list \<Rightarrow> nat \<Rightarrow> fl matrix \<Rightarrow>
   error + fl matrix" where
  "match_step sep_method S S_sep A_sep order j S_matched =
     ebind (item order j) (\<lambda>oj.
     ebind (row0 A_sep) (\<lambda>a0.
     ebind (item a0 oj) (\<lambda>weight.
     ebind (column S_sep oj) (\<lambda>comp.
     ebind (column S_matched j) (\<lambda>_.
     ebind (row0 S) (\<lambda>s0.
       Inr (set_column S_matched j
              (recentre sep_method (np_mean (map Some s0))
                 (map (\<lambda>x. Some (weight * x)) comp)))))))))"

definition match_components ::
  "string \<Rightarrow> nat \<Rightarrow> real matrix \<Rightarrow> real matrix \<Rightarrow> real matrix \<Rightarrow> error + fl matrix" where
  "match_components sep_method n S S_sep A_sep =
     ebind (component_order n A_sep) (\<lambda>order.
       for_loop [0..<n] (match_step sep_method S S_sep A_sep order)
         (map (map (\<lambda>_. Some 0)) S_sep))"

subsection \<open>The convergence metadata, lines 234 to 247\<close>

datatype pyval = PInt int | PBool bool | PStr string

record convergence =
  max_iterations :: pyval
  random_state' :: pyval
  iterations' :: pyval
  converged :: pyval

definition convergence_info :: "string \<Rightarrow> int \<Rightarrow> int \<Rightarrow> int \<Rightarrow> convergence" where
  "convergence_info sep_method maxiter random_state n_iter =
     (if sep_method = ''ica'' then
        \<lparr>max_iterations = PInt maxiter, random_state' = PInt random_state,
         iterations' = PInt n_iter, converged = PBool (\<not> n_iter = maxiter)\<rparr>
      else if sep_method = ''nmf'' then
        \<lparr>max_iterations = PInt maxiter, random_state' = PStr ''not yet implemented'',
         iterations' = PInt n_iter, converged = PBool (\<not> n_iter = maxiter)\<rparr>
      else
        \<lparr>max_iterations = PInt maxiter, random_state' = PStr ''not yet implemented'',
         iterations' = PStr ''not yet implemented'',
         converged = PStr ''not yet implemented''\<rparr>)"

subsection \<open>\<open>separate\<close>\<close>

text \<open>
  With \<open>0 < n_components < 1\<close> the number of components is the number of PCA components
  whose explained variance ratio exceeds \<open>n_components\<close>. The function returns
  \<open>S_sep.T, S_matched.T, A_sep, convergence\<close>.
\<close>

definition resolve_n_components :: "libs \<Rightarrow> real matrix \<Rightarrow> ncomp \<Rightarrow> ncomp" where
  "resolve_n_components lib S n_components =
     (case n_components of
        Fraction x \<Rightarrow>
          if 0 < x \<and> x < 1
          then Count (int (length (filter (\<lambda>ratio. x < ratio) (PCA lib (transpose S)))))
          else Fraction x
      | Count n \<Rightarrow> Count n)"

definition separate ::
  "libs \<Rightarrow> world \<Rightarrow> real matrix \<Rightarrow> string \<Rightarrow> ncomp \<Rightarrow> int \<Rightarrow> real \<Rightarrow> int \<Rightarrow> int \<Rightarrow>
   error + ((real matrix \<times> fl matrix \<times> real matrix \<times> convergence) \<times> world)" where
  "separate lib w S sep_method n_components maxiter tol random_state maxtries =
     (let n_components = resolve_n_components lib S n_components in
      ebind (factorize lib w S sep_method n_components maxiter tol random_state maxtries)
        (\<lambda>(S_sep, A_sep, n_iter, random_state, w).
      ebind (match_components sep_method (case n_components of Count n \<Rightarrow> nat n | Fraction x \<Rightarrow> 0)
               S S_sep A_sep)
        (\<lambda>S_matched.
           Inr ((transpose S_sep, transpose S_matched, A_sep,
                 convergence_info sep_method maxiter random_state n_iter), w))))"

subsection \<open>Facts about the matching step\<close>

lemma ebind_Inr: "ebind (Inr x) f = f x"
  by (simp add: ebind_def)

lemma ebind_Inl: "ebind (Inl e) f = Inl e"
  by (simp add: ebind_def)

lemma length_argsort: "length (argsort s) = length s"
  by (simp add: argsort_def)

lemma set_argsort: "set (argsort s) = {0..<length s}"
  by (simp add: argsort_def)

lemma distinct_argsort: "distinct (argsort s)"
  by (simp add: argsort_def)

lemma sorted_argsort: "sorted (map (\<lambda>i. s ! i) (argsort s))"
  by (simp add: argsort_def)

lemma descending_order:
  assumes "i \<le> j" "j < length s"
  shows "s ! (rev (argsort s) ! j) \<le> s ! (rev (argsort s) ! i)"
proof -
  let ?a = "argsort s"
  let ?n = "length s"
  have len: "length ?a = ?n" by (rule length_argsort)
  have i: "i < ?n" using assms by simp
  have rj: "rev ?a ! j = ?a ! (?n - Suc j)" using assms(2) len by (simp add: rev_nth)
  have ri: "rev ?a ! i = ?a ! (?n - Suc i)" using i len by (simp add: rev_nth)
  have le: "?n - Suc j \<le> ?n - Suc i" using assms by simp
  have lt: "?n - Suc i < length (map (\<lambda>k. s ! k) ?a)" using i len by simp
  from sorted_nth_mono[OF sorted_argsort le lt]
  have "map (\<lambda>k. s ! k) ?a ! (?n - Suc j) \<le> map (\<lambda>k. s ! k) ?a ! (?n - Suc i)" .
  then show ?thesis using rj ri assms i len by simp
qed

lemma mat_row0: "mat r c M \<Longrightarrow> 0 < r \<Longrightarrow> row0 M = Inr (M ! 0) \<and> length (M ! 0) = c"
  by (cases M) (auto simp: mat_def row0_def)

lemma component_order_ok:
  assumes "mat r n A_sep" "0 < r"
  shows "\<exists>A. normalize_columns n A_sep = Inr A \<and> mat r n A \<and>
           component_order n A_sep = Inr (rev (argsort (A ! 0)))"
proof -
  from normalize_loop_inv[OF mat_abs_matrix[OF assms(1)], of n]
  obtain A where A: "normalize_columns n A_sep = Inr A" "mat r n A"
    unfolding normalize_columns_def by auto
  then show ?thesis
    using mat_row0[OF A(2) assms(2)] by (simp add: component_order_def ebind_def)
qed

lemma length_recentre: "length (recentre m pm col) = length col"
  by (simp add: recentre_def)

text \<open>The column that iteration \<open>j\<close> of the matching loop leaves in \<open>S_matched[:, j]\<close>.\<close>

definition matched_column ::
  "string \<Rightarrow> real matrix \<Rightarrow> real matrix \<Rightarrow> real matrix \<Rightarrow> nat list \<Rightarrow> nat \<Rightarrow> fl list" where
  "matched_column sep_method S S_sep A_sep order j =
     recentre sep_method (np_mean (map Some (S ! 0)))
       (map (\<lambda>x. Some (A_sep ! 0 ! (order ! j) * x)) (map (\<lambda>row. row ! (order ! j)) S_sep))"

lemma match_step_ok:
  assumes "mat t n S_sep" "mat r n A_sep" "0 < r" "S \<noteq> []"
    and "length order = n" "set order \<subseteq> {0..<n}" "mat t n SM" "j < n"
  shows "match_step m S S_sep A_sep order j SM =
           Inr (set_column SM j (matched_column m S S_sep A_sep order j))"
proof -
  have oj: "order ! j < n" using assms(5,6,8) by (metis atLeastLessThan_iff nth_mem subsetD)
  have a: "item order j = Inr (order ! j)" using assms(5,8) by (simp add: item_def)
  have b: "row0 A_sep = Inr (A_sep ! 0)" "length (A_sep ! 0) = n"
    using mat_row0[OF assms(2,3)] by simp_all
  have c: "item (A_sep ! 0) (order ! j) = Inr (A_sep ! 0 ! (order ! j))"
    using b(2) oj by (simp add: item_def)
  have d: "column S_sep (order ! j) = Inr (map (\<lambda>row. row ! (order ! j)) S_sep)"
    using column_mat[OF assms(1) oj] .
  have e: "column SM j = Inr (map (\<lambda>row. row ! j) SM)"
    using column_mat[OF assms(7,8)] .
  have f: "row0 S = Inr (S ! 0)" using assms(4) by (cases S) (simp_all add: row0_def)
  show ?thesis
    by (simp add: match_step_def a b(1) c d e f ebind_def matched_column_def)
qed

lemma length_matched_column:
  "mat t n S_sep \<Longrightarrow> length (matched_column m S S_sep A_sep order j) = t"
  by (simp add: matched_column_def length_recentre mat_def)

lemma match_loop_inv:
  assumes "mat t n S_sep" "mat r n A_sep" "0 < r" "S \<noteq> []"
    and "length order = n" "set order \<subseteq> {0..<n}" "mat t n SM0" "k \<le> n"
  shows "\<exists>SM. for_loop [0..<k] (match_step m S S_sep A_sep order) SM0 = Inr SM \<and> mat t n SM \<and>
          (\<forall>j<k. map (\<lambda>row. row ! j) SM = matched_column m S S_sep A_sep order j) \<and>
          (\<forall>j\<ge>k. map (\<lambda>row. row ! j) SM = map (\<lambda>row. row ! j) SM0)"
  using assms(8)
proof (induction k)
  case 0
  then show ?case using assms(7) by simp
next
  case (Suc k)
  then obtain SM1 where SM1: "for_loop [0..<k] (match_step m S S_sep A_sep order) SM0 = Inr SM1"
    "mat t n SM1"
    "\<forall>j<k. map (\<lambda>row. row ! j) SM1 = matched_column m S S_sep A_sep order j"
    "\<forall>j\<ge>k. map (\<lambda>row. row ! j) SM1 = map (\<lambda>row. row ! j) SM0"
    by auto
  from Suc.prems have k: "k < n" by simp
  let ?v = "matched_column m S S_sep A_sep order k"
  let ?SM2 = "set_column SM1 k ?v"
  have len: "length ?v = t" using length_matched_column[OF assms(1)] .
  have step: "match_step m S S_sep A_sep order k SM1 = Inr ?SM2"
    using match_step_ok[OF assms(1-6) SM1(2) k] .
  have "for_loop [0..<Suc k] (match_step m S S_sep A_sep order) SM0 = Inr ?SM2"
    using SM1(1) step by (simp add: for_loop_append)
  moreover have "mat t n ?SM2" using mat_set_column[OF SM1(2) len] .
  moreover have "\<forall>j<Suc k. map (\<lambda>row. row ! j) ?SM2 = matched_column m S S_sep A_sep order j"
    using SM1(3) set_column_same[OF SM1(2) len k] set_column_other[OF SM1(2) len]
    by (auto simp: less_Suc_eq)
  moreover have "\<forall>j\<ge>Suc k. map (\<lambda>row. row ! j) ?SM2 = map (\<lambda>row. row ! j) SM0"
    using SM1(4) set_column_other[OF SM1(2) len] by auto
  ultimately show ?case by blast
qed

lemma match_components_ok:
  assumes "mat t n S_sep" "mat r n A_sep" "0 < r" "S \<noteq> []"
  shows "\<exists>SM order. match_components m n S S_sep A_sep = Inr SM \<and> mat t n SM \<and>
           component_order n A_sep = Inr order \<and>
           (\<forall>j<n. map (\<lambda>row. row ! j) SM = matched_column m S S_sep A_sep order j)"
proof -
  from component_order_ok[OF assms(2,3)] obtain A where A:
    "mat r n A" "component_order n A_sep = Inr (rev (argsort (A ! 0)))" by blast
  let ?order = "rev (argsort (A ! 0))"
  have l0: "length (A ! 0) = n" using mat_row0[OF A(1) assms(3)] by simp
  have lo: "length ?order = n" using l0 by (simp add: length_argsort)
  have so: "set ?order \<subseteq> {0..<n}" using l0 by (simp add: set_argsort)
  have z: "mat t n (map (map (\<lambda>_. Some (0::real))) S_sep)"
    using assms(1) by (simp add: mat_def list_all_iff)
  from match_loop_inv[OF assms lo so z, of n m] obtain SM where
    "for_loop [0..<n] (match_step m S S_sep A_sep ?order) (map (map (\<lambda>_. Some 0)) S_sep) = Inr SM"
    "mat t n SM" "\<forall>j<n. map (\<lambda>row. row ! j) SM = matched_column m S S_sep A_sep ?order j"
    by auto
  then show ?thesis
    using A(2) by (simp add: match_components_def ebind_def)
qed

lemma transpose_mat:
  assumes "mat r c M" "0 < r"
  shows "mat c r (transpose M)" "\<And>j. j < c \<Longrightarrow> transpose M ! j = map (\<lambda>row. row ! j) M"
proof -
  have ne: "M = [] \<Longrightarrow> c = 0" using assms by (auto simp: mat_def)
  have rect: "\<And>i. i < length M \<Longrightarrow> length (M ! i) = c"
    using assms(1) by (simp add: mat_def list_all_length)
  have t: "transpose M = map (\<lambda>i. map (\<lambda>j. M ! j ! i) [0..<length M]) [0..<c]"
    by (rule transpose_rectangle[OF ne rect])
  show "mat c r (transpose M)"
    using assms(1) by (simp add: t mat_def list_all_iff)
  show "transpose M ! j = map (\<lambda>row. row ! j) M" if "j < c" for j
    using that by (simp add: t map_nth_upt[of "\<lambda>row. row ! j" M, symmetric])
qed

subsection \<open>Facts about the retry loop\<close>

text \<open>The seed of try number \<open>k\<close> (from 0) of a loop entered with \<open>d\<close> values already drawn.\<close>

definition seed_at :: "(nat \<Rightarrow> int) \<Rightarrow> int \<Rightarrow> nat \<Rightarrow> nat \<Rightarrow> int" where
  "seed_at rand random_state d k = (if k = 0 then random_state else rand (d + k - 1))"

text \<open>
  What a log of tries looks like under the retry policy: between one and \<open>maxtries\<close>
  tries, try \<open>k\<close> run with seed \<open>seed_at \<dots> k\<close>, every try but the last at or above the
  budget, and the last one either below the budget or the last one allowed.
\<close>

definition retried ::
  "(int \<Rightarrow> error + factorization) \<Rightarrow> (nat \<Rightarrow> int) \<Rightarrow> int \<Rightarrow> nat \<Rightarrow> int \<Rightarrow> nat \<Rightarrow>
   (int option \<times> int) list \<Rightarrow> bool" where
  "retried fit rand budget maxtries random_state d tries =
     (1 \<le> length tries \<and> length tries \<le> maxtries \<and>
      (\<forall>k<length tries. \<exists>f. fit (seed_at rand random_state d k) = Inr f \<and>
          tries ! k = (Some (seed_at rand random_state d k), iterations f)) \<and>
      (\<forall>k<length tries - 1. budget \<le> snd (tries ! k)) \<and>
      (snd (last tries) < budget \<or> length tries = maxtries))"

lemma retried_single:
  assumes "fit rs = Inr r" "iterations r < budget \<or> left = 0"
  shows "retried fit rand budget (Suc left) rs d [(Some rs, iterations r)]"
  using assms by (auto simp: retried_def seed_at_def)

lemma retried_Cons:
  assumes "fit rs = Inr r" "budget \<le> iterations r"
    and "retried fit rand budget left (rand d) (Suc d) tries"
  shows "retried fit rand budget (Suc left) rs d ((Some rs, iterations r) # tries)"
proof -
  have s: "seed_at rand rs d (Suc k) = seed_at rand (rand d) (Suc d) k" for k
    by (simp add: seed_at_def)
  have s0: "seed_at rand rs d 0 = rs" by (simp add: seed_at_def)
  from assms(3) have ne: "tries \<noteq> []" by (auto simp: retried_def)
  have a: "\<forall>k<length ((Some rs, iterations r) # tries).
        \<exists>f. fit (seed_at rand rs d k) = Inr f \<and>
          ((Some rs, iterations r) # tries) ! k = (Some (seed_at rand rs d k), iterations f)"
  proof (intro allI impI)
    fix k assume k: "k < length ((Some rs, iterations r) # tries)"
    show "\<exists>f. fit (seed_at rand rs d k) = Inr f \<and>
          ((Some rs, iterations r) # tries) ! k = (Some (seed_at rand rs d k), iterations f)"
    proof (cases k)
      case 0
      then show ?thesis using assms(1) s0 by simp
    next
      case (Suc k')
      then have "k' < length tries" using k by simp
      with assms(3) obtain f where "fit (seed_at rand (rand d) (Suc d) k') = Inr f"
        "tries ! k' = (Some (seed_at rand (rand d) (Suc d) k'), iterations f)"
        unfolding retried_def by blast
      then show ?thesis using Suc s by simp
    qed
  qed
  have b: "\<forall>k<length ((Some rs, iterations r) # tries) - 1.
        budget \<le> snd (((Some rs, iterations r) # tries) ! k)"
  proof (intro allI impI)
    fix k assume k: "k < length ((Some rs, iterations r) # tries) - 1"
    show "budget \<le> snd (((Some rs, iterations r) # tries) ! k)"
    proof (cases k)
      case 0
      then show ?thesis using assms(2) by simp
    next
      case (Suc k')
      then have "k' < length tries - 1" using k by simp
      with assms(3) have "budget \<le> snd (tries ! k')" unfolding retried_def by blast
      then show ?thesis using Suc by simp
    qed
  qed
  have c: "snd (last ((Some rs, iterations r) # tries)) < budget \<or>
           length ((Some rs, iterations r) # tries) = Suc left"
    using assms(3) ne by (auto simp: retried_def)
  have d: "1 \<le> length ((Some rs, iterations r) # tries) \<and>
           length ((Some rs, iterations r) # tries) \<le> Suc left"
    using assms(3) by (auto simp: retried_def)
  show ?thesis unfolding retried_def using a b c d by blast
qed

lemma retry_loop_log:
  "retry_loop fit rand budget left rs w = Inr (r, rs', w') \<Longrightarrow>
     \<exists>tries. fit_log w' = fit_log w @ tries \<and>
       retried fit rand budget left rs (draws w) tries \<and>
       draws w' = draws w + length tries - 1 \<and>
       last tries = (Some rs', iterations r) \<and> fit rs' = Inr r"
proof (induction left arbitrary: rs w)
  case 0
  then show ?case by simp
next
  case (Suc left)
  from Suc.prems obtain r0 where r0: "fit rs = Inr r0"
    by (auto split: sum.splits)
  let ?w' = "w\<lparr>fit_log := fit_log w @ [(Some rs, iterations r0)]\<rparr>"
  show ?case
  proof (cases "iterations r0 < budget \<or> left = 0")
    case True
    then have "r = r0" "rs' = rs" "w' = ?w'"
      using Suc.prems r0 by (auto simp: Let_def split: if_splits)
    then show ?thesis
      using retried_single[of fit rs r0 budget left rand "draws w", OF r0 True] r0
      by (intro exI[of _ "[(Some rs, iterations r0)]"]) simp
  next
    case False
    then have rec: "retry_loop fit rand budget left (rand (draws w)) (?w'\<lparr>draws := Suc (draws w)\<rparr>)
                    = Inr (r, rs', w')"
      using Suc.prems r0 by (simp add: Let_def)
    from Suc.IH[OF rec] obtain tries where t:
      "fit_log w' = (fit_log w @ [(Some rs, iterations r0)]) @ tries"
      "retried fit rand budget left (rand (draws w)) (Suc (draws w)) tries"
      "draws w' = Suc (draws w) + length tries - 1"
      "last tries = (Some rs', iterations r)" "fit rs' = Inr r"
      by auto
    from t(2) have ne: "tries \<noteq> []" by (auto simp: retried_def)
    have b: "budget \<le> iterations r0" using False by simp
    show ?thesis
      using t ne retried_Cons[of fit rs r0 budget rand left "draws w" tries, OF r0 b t(2)]
      by (intro exI[of _ "(Some rs, iterations r0) # tries"]) (simp add: Suc_leI)
  qed
qed

lemma retry_loop_total:
  assumes "\<forall>seed. \<exists>r. fit seed = Inr r \<and> P r" "0 < left"
  shows "\<exists>r rs' w'. retry_loop fit rand budget left rs w = Inr (r, rs', w') \<and> P r"
  using assms(2)
proof (induction left arbitrary: rs w)
  case 0
  then show ?case by simp
next
  case (Suc left)
  from assms(1) obtain r0 where r0: "fit rs = Inr r0" "P r0" by blast
  show ?case
  proof (cases "iterations r0 < budget \<or> left = 0")
    case True
    then show ?thesis using r0 by (auto simp: Let_def)
  next
    case False
    then have "0 < left" by simp
    from Suc.IH[OF this] show ?thesis using r0 False by (simp add: Let_def)
  qed
qed

subsection \<open>What the model asks of the solvers\<close>

text \<open>
  For the data \<open>S.T\<close> of \<open>t\<close> samples and \<open>r\<close> regions and \<open>n\<close> components, every run of a
  solver returns, and returns arrays of the documented shapes: the transformed data is
  \<open>t\<close> by \<open>n\<close>, \<open>mixing_\<close> is \<open>r\<close> by \<open>n\<close>, and \<open>components_\<close> and \<open>coef()\<close> are \<open>n\<close> by \<open>r\<close>.
\<close>

definition lib_contract :: "libs \<Rightarrow> real matrix \<Rightarrow> nat \<Rightarrow> int \<Rightarrow> real \<Rightarrow> nat \<Rightarrow> nat \<Rightarrow> bool" where
  "lib_contract lib S n maxiter tol r t =
     ((\<forall>seed. \<exists>f. FastICA lib (transpose S) (int n) maxiter tol seed = Inr f \<and>
                 mat t n (transformed f) \<and> mat r n (weights f)) \<and>
      (\<forall>seed. \<exists>f. NMF lib (transpose S) (int n) maxiter tol seed = Inr f \<and>
                 mat t n (transformed f) \<and> mat n r (weights f)) \<and>
      (\<exists>f. nimfa_Nmf lib (transpose S) maxiter (int n) = Inr f \<and>
                 mat t n (transformed f) \<and> mat n r (weights f)))"

lemma factorize_ica:
  assumes "lib_contract lib S n maxiter tol r t" "0 < maxtries"
  shows "\<exists>S_sep A_sep n_iter rs' w' tries.
           factorize lib w S ''ica'' (Count (int n)) maxiter tol rs maxtries =
             Inr (S_sep, A_sep, n_iter, rs', w') \<and>
           mat t n S_sep \<and> mat r n A_sep \<and> fit_log w' = fit_log w @ tries \<and>
           retried (FastICA lib (transpose S) (int n) maxiter tol) (randint lib) maxiter
             (nat maxtries) rs (draws w) tries \<and>
           draws w' = draws w + length tries - 1 \<and> last tries = (Some rs', n_iter)"
proof -
  let ?fit = "FastICA lib (transpose S) (int n) maxiter tol"
  have c: "\<forall>seed. \<exists>f. ?fit seed = Inr f \<and> (mat t n (transformed f) \<and> mat r n (weights f))"
    using assms(1) by (simp add: lib_contract_def)
  have m: "0 < nat maxtries" using assms(2) by simp
  from retry_loop_total[OF c m, of "randint lib" maxiter rs w] obtain f rs' w' where f:
    "retry_loop ?fit (randint lib) maxiter (nat maxtries) rs w = Inr (f, rs', w')"
    "mat t n (transformed f)" "mat r n (weights f)" by blast
  from retry_loop_log[OF f(1)] obtain tries where t:
    "fit_log w' = fit_log w @ tries"
    "retried ?fit (randint lib) maxiter (nat maxtries) rs (draws w) tries"
    "draws w' = draws w + length tries - 1" "last tries = (Some rs', iterations f)"
    by blast
  have "factorize lib w S ''ica'' (Count (int n)) maxiter tol rs maxtries =
          Inr (transformed f, weights f, iterations f, rs', w')"
    by (simp add: factorize_def f(1) ebind_def)
  then show ?thesis using f(2,3) t by blast
qed

lemma factorize_nmf_sklearn:
  assumes "lib_contract lib S n maxiter tol r t" "0 < maxtries" "0 < n"
  shows "\<exists>S_sep A_sep n_iter rs' w' tries.
           factorize lib w S ''nmf_sklearn'' (Count (int n)) maxiter tol rs maxtries =
             Inr (S_sep, A_sep, n_iter, rs', w') \<and>
           mat t n S_sep \<and> mat r n A_sep \<and> fit_log w' = fit_log w @ tries \<and>
           retried (NMF lib (transpose S) (int n) maxiter tol) (randint lib) (maxiter - 1)
             (nat maxtries) rs (draws w) tries \<and>
           draws w' = draws w + length tries - 1 \<and> last tries = (Some rs', n_iter)"
proof -
  let ?fit = "NMF lib (transpose S) (int n) maxiter tol"
  have c: "\<forall>seed. \<exists>f. ?fit seed = Inr f \<and> (mat t n (transformed f) \<and> mat n r (weights f))"
    using assms(1) by (simp add: lib_contract_def)
  have m: "0 < nat maxtries" using assms(2) by simp
  from retry_loop_total[OF c m, of "randint lib" "maxiter - 1" rs w] obtain f rs' w' where f:
    "retry_loop ?fit (randint lib) (maxiter - 1) (nat maxtries) rs w = Inr (f, rs', w')"
    "mat t n (transformed f)" "mat n r (weights f)" by blast
  from retry_loop_log[OF f(1)] obtain tries where t:
    "fit_log w' = fit_log w @ tries"
    "retried ?fit (randint lib) (maxiter - 1) (nat maxtries) rs (draws w) tries"
    "draws w' = draws w + length tries - 1" "last tries = (Some rs', iterations f)"
    by blast
  have "factorize lib w S ''nmf_sklearn'' (Count (int n)) maxiter tol rs maxtries =
          Inr (transformed f, transpose (weights f), iterations f, rs', w')"
    by (simp add: factorize_def f(1) ebind_def)
  then show ?thesis using f(2) transpose_mat(1)[OF f(3) assms(3)] t by blast
qed

lemma factorize_nmf:
  assumes "lib_contract lib S n maxiter tol r t" "0 < n"
  shows "\<exists>S_sep A_sep n_iter.
           factorize lib w S ''nmf'' (Count (int n)) maxiter tol rs maxtries =
             Inr (S_sep, A_sep, n_iter, rs, w\<lparr>fit_log := fit_log w @ [(None, n_iter)]\<rparr>) \<and>
           mat t n S_sep \<and> mat r n A_sep \<and>
           (\<exists>f. nimfa_Nmf lib (transpose S) maxiter (int n) = Inr f \<and> n_iter = iterations f)"
proof -
  from assms(1) obtain f where f: "nimfa_Nmf lib (transpose S) maxiter (int n) = Inr f"
    "mat t n (transformed f)" "mat n r (weights f)"
    unfolding lib_contract_def by blast
  have "factorize lib w S ''nmf'' (Count (int n)) maxiter tol rs maxtries =
          Inr (transformed f, transpose (weights f), iterations f, rs,
               w\<lparr>fit_log := fit_log w @ [(None, iterations f)]\<rparr>)"
    by (simp add: factorize_def f(1) ebind_def)
  then show ?thesis using f transpose_mat(1)[OF f(3) assms(2)] by blast
qed

lemma factorize_shapes:
  assumes "lib_contract lib S n maxiter tol r t" "0 < maxtries" "0 < n"
    and "sep_method \<in> {''ica'', ''nmf'', ''nmf_sklearn''}"
  shows "\<exists>S_sep A_sep n_iter rs' w'.
           factorize lib w S sep_method (Count (int n)) maxiter tol rs maxtries =
             Inr (S_sep, A_sep, n_iter, rs', w') \<and> mat t n S_sep \<and> mat r n A_sep"
proof -
  consider "sep_method = ''ica''" | "sep_method = ''nmf''" | "sep_method = ''nmf_sklearn''"
    using assms(4) by blast
  then show ?thesis
  proof cases
    case 1
    then show ?thesis using factorize_ica[OF assms(1,2), of w rs] by blast
  next
    case 2
    then show ?thesis using factorize_nmf[OF assms(1,3), of w rs maxtries] by blast
  next
    case 3
    then show ?thesis using factorize_nmf_sklearn[OF assms(1,2,3), of w rs] by blast
  qed
qed

text \<open>The whole function from its two halves.\<close>

lemma separate_from_parts:
  assumes "resolve_n_components lib S n_components = Count (int n)"
    and "factorize lib w S sep_method (Count (int n)) maxiter tol rs maxtries =
           Inr (S_sep, A_sep, n_iter, rs', w')"
    and "match_components sep_method n S S_sep A_sep = Inr SM"
  shows "separate lib w S sep_method n_components maxiter tol rs maxtries =
           Inr ((transpose S_sep, transpose SM, A_sep,
                 convergence_info sep_method maxiter rs' n_iter), w')"
  using assms by (simp add: separate_def ebind_def)

lemma separate_ok:
  assumes "mat r t S" "0 < r" "0 < t" "0 < n"
    and "resolve_n_components lib S n_components = Count (int n)"
    and "lib_contract lib S n maxiter tol r t" "0 < maxtries"
    and "sep_method \<in> {''ica'', ''nmf'', ''nmf_sklearn''}"
  shows "\<exists>S_sep A_sep n_iter rs' w' SM order.
           factorize lib w S sep_method (Count (int n)) maxiter tol rs maxtries =
             Inr (S_sep, A_sep, n_iter, rs', w') \<and>
           mat t n S_sep \<and> mat r n A_sep \<and> mat t n SM \<and>
           component_order n A_sep = Inr order \<and>
           (\<forall>j<n. map (\<lambda>row. row ! j) SM = matched_column sep_method S S_sep A_sep order j) \<and>
           separate lib w S sep_method n_components maxiter tol rs maxtries =
             Inr ((transpose S_sep, transpose SM, A_sep,
                   convergence_info sep_method maxiter rs' n_iter), w')"
proof -
  from factorize_shapes[OF assms(6,7,4,8), of w rs] obtain S_sep A_sep n_iter rs' w' where f:
    "factorize lib w S sep_method (Count (int n)) maxiter tol rs maxtries =
       Inr (S_sep, A_sep, n_iter, rs', w')" "mat t n S_sep" "mat r n A_sep"
    by blast
  have ne: "S \<noteq> []" using assms(1,2) by (auto simp: mat_def)
  from match_components_ok[OF f(2,3) assms(2) ne, of sep_method] obtain SM order where m:
    "match_components sep_method n S S_sep A_sep = Inr SM" "mat t n SM"
    "component_order n A_sep = Inr order"
    "\<forall>j<n. map (\<lambda>row. row ! j) SM = matched_column sep_method S S_sep A_sep order j"
    by blast
  show ?thesis
    using f m separate_from_parts[OF assms(5) f(1) m(1)] by blast
qed

subsection \<open>A fixed set of solvers for concrete runs\<close>

text \<open>
  Stand-ins for the libraries that return the same factorisation of a two-region,
  two-sample input whatever the seed: FastICA reports 3 iterations, sklearn's NMF
  reports \<open>max_iter - 1\<close> (the value the retry loop treats as not converged), nimfa
  reports \<open>max_iter\<close>. The generator draws 17, 18, 19 and so on.
\<close>

definition lib0 :: libs where
  "lib0 =
     \<lparr>FastICA = (\<lambda>X n maxiter tol seed.
        Inr \<lparr>transformed = [[1, 0], [3, 1]], weights = [[2, - 5], [1, 1]], iterations = 3\<rparr>),
      NMF = (\<lambda>X n maxiter tol seed.
        Inr \<lparr>transformed = [[1, 0], [3, 1]], weights = [[2, 1], [5, 1]],
             iterations = maxiter - 1\<rparr>),
      nimfa_Nmf = (\<lambda>X maxiter n.
        Inr \<lparr>transformed = [[1, 0], [3, 1]], weights = [[2, 1], [5, 1]], iterations = maxiter\<rparr>),
      PCA = (\<lambda>X. [9 / 10, 1 / 10]),
      randint = (\<lambda>k. 17 + int k)\<rparr>"

lemma lib0_contract: "lib_contract lib0 S 2 maxiter tol 2 2"
  by (simp add: lib_contract_def lib0_def mat_def)

lemma lib0_resolve_fraction:
  "resolve_n_components lib0 S (Fraction (1 / 1000)) = Count (int 2)"
  by (simp add: resolve_n_components_def lib0_def)

lemma lib0_resolve_count: "resolve_n_components lib0 S (Count 2) = Count (int 2)"
  by (simp add: resolve_n_components_def)

subsection \<open>Claim C2: the shapes of the results\<close>

text \<open>
  C2. For a trace matrix \<open>S\<close> of \<open>r \<ge> 2\<close> regions and \<open>t \<ge> 1\<close> samples, each of the three
  separation methods, \<open>n \<ge> 1\<close> components (given, or inferred by PCA), at least one try
  and solvers that return arrays of their documented shapes, \<open>separate\<close> returns, and the
  returned \<open>S_sep\<close> and \<open>S_matched\<close> are both \<open>n\<close> by \<open>t\<close> (the shape of \<open>S\<close> restricted to
  \<open>n\<close> regions) while \<open>A_sep\<close> has one row per input region (and \<open>n\<close> columns).
\<close>

theorem separate_shapes:
  assumes "mat r t S" "2 \<le> r" "0 < t" "0 < n"
    and "resolve_n_components lib S n_components = Count (int n)"
    and "lib_contract lib S n maxiter tol r t" "0 < maxtries"
    and "sep_method \<in> {''ica'', ''nmf'', ''nmf_sklearn''}"
  shows "\<exists>S_sep S_matched A_sep conv w'.
           separate lib w S sep_method n_components maxiter tol random_state maxtries =
             Inr ((S_sep, S_matched, A_sep, conv), w') \<and>
           mat n t S_sep \<and> mat n t S_matched \<and> mat r n A_sep \<and> length A_sep = length S"
proof -
  have r: "0 < r" using assms(2) by simp
  from separate_ok[OF assms(1) r assms(3-8), of w random_state]
  obtain S_sep A_sep n_iter rs' w' SM where s:
    "mat t n S_sep" "mat r n A_sep" "mat t n SM"
    "separate lib w S sep_method n_components maxiter tol random_state maxtries =
       Inr ((transpose S_sep, transpose SM, A_sep,
             convergence_info sep_method maxiter rs' n_iter), w')"
    by blast
  have "length A_sep = length S" using s(2) assms(1) by (simp add: mat_def)
  then show ?thesis
    using s(2,4) transpose_mat(1)[OF s(1) assms(3)] transpose_mat(1)[OF s(3) assms(3)]
    by blast
qed

theorem separate_shapes_witness:
  "mat 2 2 [[0, 0], [1, 1::real]] \<and> lib_contract lib0 [[0, 0], [1, 1]] 2 5 (1 / 100000) 2 2 \<and>
   separate lib0 \<lparr>draws = 0, fit_log = []\<rparr> [[0, 0], [1, 1]] ''nmf'' (Fraction (1 / 1000)) 5
       (1 / 100000) 892 3 =
     Inr (([[1, 3], [0, 1]], [[Some (- (5 / 2)), Some (5 / 2)], [Some (- 2), Some 2]],
           [[2, 5], [1, 1]],
           \<lparr>max_iterations = PInt 5, random_state' = PStr ''not yet implemented'',
            iterations' = PInt 5, converged = PBool False\<rparr>),
          \<lparr>draws = 0, fit_log = [(None, 5)]\<rparr>) \<and>
   mat 2 2 [[1, 3], [0, 1::real]] \<and>
   mat 2 2 [[Some (- (5 / 2)), Some (5 / 2)], [Some (- 2), Some (2::real)]] \<and>
   mat 2 2 [[2, 5], [1, 1::real]]"
proof -
  let ?S = "[[0, 0], [1, 1::real]]"
  have a: "mat 2 2 ?S" by (simp add: mat_def)
  have m: "''nmf'' \<in> {''ica'', ''nmf'', ''nmf_sklearn''}" by simp
  have ev: "separate lib0 \<lparr>draws = 0, fit_log = []\<rparr> ?S ''nmf'' (Fraction (1 / 1000)) 5
       (1 / 100000) 892 3 =
     Inr (([[1, 3], [0, 1]], [[Some (- (5 / 2)), Some (5 / 2)], [Some (- 2), Some 2]],
           [[2, 5], [1, 1]],
           \<lparr>max_iterations = PInt 5, random_state' = PStr ''not yet implemented'',
            iterations' = PInt 5, converged = PBool False\<rparr>),
          \<lparr>draws = 0, fit_log = [(None, 5)]\<rparr>)"
    by code_simp
  from separate_shapes[where maxiter = 5 and tol = "1 / 100000" and maxtries = 3
      and w = "\<lparr>draws = 0, fit_log = []\<rparr>" and random_state = 892,
      OF a _ _ _ lib0_resolve_fraction lib0_contract _ m]
  obtain S_sep S_matched A_sep conv w' where s:
    "separate lib0 \<lparr>draws = 0, fit_log = []\<rparr> ?S ''nmf'' (Fraction (1 / 1000)) 5
       (1 / 100000) 892 3 = Inr ((S_sep, S_matched, A_sep, conv), w')"
    "mat 2 2 S_sep" "mat 2 2 S_matched" "mat 2 2 A_sep"
    by auto
  from s(1) ev have "S_sep = [[1, 3], [0, 1]]"
    "S_matched = [[Some (- (5 / 2)), Some (5 / 2)], [Some (- 2), Some 2]]"
    "A_sep = [[2, 5], [1, 1]]"
    by simp_all
  with s(2-4) show ?thesis using a ev lib0_contract by simp
qed

subsection \<open>Claim C1: how a matched column is built\<close>

lemma sum_list_shift: "sum_list (map (\<lambda>x. x + c) xs) = sum_list xs + real (length xs) * (c::real)"
  by (induction xs) (simp_all add: algebra_simps)

lemma np_mean_recentred:
  assumes "xs \<noteq> []"
  shows "np_mean (map (\<lambda>v. fl2 (+) v (fl2 (-) (Some p) (np_mean (map Some xs)))) (map Some xs))
         = Some p"
proof -
  let ?m = "sum_list xs / real (length xs)"
  have m: "np_mean (map Some xs) = Some ?m" using assms by (simp only: np_mean_Some if_False)
  have l: "map (\<lambda>v. fl2 (+) v (fl2 (-) (Some p) (Some ?m))) (map Some xs) =
           map Some (map (\<lambda>x. x + (p - ?m)) xs)"
    by (simp add: fl2_def)
  have ne: "map (\<lambda>x. x + (p - ?m)) xs \<noteq> []" using assms by simp
  have n0: "real (length xs) \<noteq> 0" using assms by simp
  have "np_mean (map Some (map (\<lambda>x. x + (p - ?m)) xs)) =
        Some (sum_list (map (\<lambda>x. x + (p - ?m)) xs) / real (length (map (\<lambda>x. x + (p - ?m)) xs)))"
    using ne by (simp only: np_mean_Some if_False)
  also have "\<dots> = Some ((sum_list xs + real (length xs) * (p - ?m)) / real (length xs))"
    by (simp only: sum_list_shift length_map)
  also have "\<dots> = Some p" using n0 by (simp add: field_simps)
  finally show ?thesis unfolding m l .
qed

lemma np_mean_recentred_scaled:
  assumes "c \<noteq> []"
  shows "np_mean (map (\<lambda>x. fl2 (+) (Some (w * x))
                          (fl2 (-) (Some p) (np_mean (map (\<lambda>x. Some (w * x)) c)))) c) = Some p"
proof -
  have e2: "map (\<lambda>x. Some (w * x)) c = map Some (map ((*) w) c)" by simp
  have e1: "map (\<lambda>x. fl2 (+) (Some (w * x)) K) c =
            map (\<lambda>v. fl2 (+) v K) (map Some (map ((*) w) c))" for K
    by simp
  have ne: "map ((*) w) c \<noteq> []" using assms by simp
  show ?thesis unfolding e2 e1 by (rule np_mean_recentred[OF ne])
qed

text \<open>
  The reconstruction as the claim words it: the sign of the primary-row weight times the
  raw component, then re-centred like the code does.
\<close>

definition claimed_matched :: "string \<Rightarrow> fl \<Rightarrow> real \<Rightarrow> real list \<Rightarrow> fl list" where
  "claimed_matched sep_method primary_mean weight component =
     recentre sep_method primary_mean (map (\<lambda>x. Some (sgn weight * x)) component)"

text \<open>
  C1 (as stated, refuted). With a primary-row weight of 2 for the second-ranked component
  \<open>[1, 3]\<close> and a primary mean of 0, the ICA path returns \<open>[2, 6]\<close> as the second matched
  trace, the weight times the component, where the claim's sign times the component
  would be \<open>[1, 3]\<close>.
\<close>

theorem separate_matched_sign_counterexample:
  "separate lib0 \<lparr>draws = 0, fit_log = []\<rparr> [[0, 0], [1, 1]] ''ica'' (Count 2) 500 (1 / 100000)
       892 10 =
     Inr (([[1, 3], [0, 1]], [[Some 0, Some (- 5)], [Some 2, Some 6]], [[2, - 5], [1, 1]],
           \<lparr>max_iterations = PInt 500, random_state' = PInt 892, iterations' = PInt 3,
            converged = PBool True\<rparr>),
          \<lparr>draws = 0, fit_log = [(Some 892, 3)]\<rparr>) \<and>
   component_order 2 [[2, - 5], [1, 1]] = Inr [1, 0] \<and>
   claimed_matched ''ica'' (np_mean (map Some ([[0, 0], [1, 1]] ! 0)))
       ([[2, - 5], [1, 1]] ! 0 ! ([1, 0] ! 1)) ([[1, 3], [0, 1]] ! ([1, 0] ! 1)) =
     [Some 1, Some 3] \<and>
   [[Some 0, Some (- 5)], [Some 2, Some (6::real)]] ! 1 \<noteq> [Some 1, Some 3]"
  by code_simp

text \<open>
  C1 (amended). Under the conditions of C2, with the components ranked by descending
  score (the primary row of the normalised absolute mixing matrix), the \<open>j\<close>-th matched
  trace is the primary-row mixing weight itself (not its sign) of the \<open>j\<close>-th ranked
  component times that component's raw values, re-centred: for ICA the primary signal's
  mean is added directly; for the two NMF methods the primary's mean minus the scaled
  component's own mean is added, so that the matched trace's mean equals the primary's.
\<close>

theorem separate_matched_columns:
  assumes "mat r t S" "2 \<le> r" "0 < t" "0 < n"
    and "resolve_n_components lib S n_components = Count (int n)"
    and "lib_contract lib S n maxiter tol r t" "0 < maxtries"
    and "sep_method \<in> {''ica'', ''nmf'', ''nmf_sklearn''}"
  shows "\<exists>S_sep S_matched A_sep conv w' A order.
           separate lib w S sep_method n_components maxiter tol random_state maxtries =
             Inr ((S_sep, S_matched, A_sep, conv), w') \<and>
           normalize_columns n A_sep = Inr A \<and> order = rev (argsort (A ! 0)) \<and>
           (\<forall>i j. i \<le> j \<and> j < n \<longrightarrow> A ! 0 ! (order ! j) \<le> A ! 0 ! (order ! i)) \<and>
           (\<forall>j<n. order ! j < n \<and>
              (sep_method = ''ica'' \<longrightarrow>
                 S_matched ! j =
                   map (\<lambda>x. fl2 (+) (Some (A_sep ! 0 ! (order ! j) * x))
                                (np_mean (map Some (S ! 0))))
                     (S_sep ! (order ! j))) \<and>
              (sep_method \<noteq> ''ica'' \<longrightarrow>
                 S_matched ! j =
                   map (\<lambda>x. fl2 (+) (Some (A_sep ! 0 ! (order ! j) * x))
                                (fl2 (-) (np_mean (map Some (S ! 0)))
                                   (np_mean (map (\<lambda>x. Some (A_sep ! 0 ! (order ! j) * x))
                                               (S_sep ! (order ! j))))))
                     (S_sep ! (order ! j)) \<and>
                 np_mean (S_matched ! j) = np_mean (map Some (S ! 0))))"
proof -
  have r: "0 < r" using assms(2) by simp
  from separate_ok[OF assms(1) r assms(3-8), of w random_state]
  obtain S0 A_sep n_iter rs' w' SM order where s:
    "mat t n S0" "mat r n A_sep" "mat t n SM"
    "component_order n A_sep = Inr order"
    "\<forall>j<n. map (\<lambda>row. row ! j) SM = matched_column sep_method S S0 A_sep order j"
    "separate lib w S sep_method n_components maxiter tol random_state maxtries =
       Inr ((transpose S0, transpose SM, A_sep,
             convergence_info sep_method maxiter rs' n_iter), w')"
    by blast
  from component_order_ok[OF s(2) r] obtain A where A:
    "normalize_columns n A_sep = Inr A" "mat r n A"
    "component_order n A_sep = Inr (rev (argsort (A ! 0)))" by blast
  have ord: "order = rev (argsort (A ! 0))" using s(4) A(3) by simp
  have l0: "length (A ! 0) = n" using mat_row0[OF A(2) r] by simp
  have desc: "\<forall>i j. i \<le> j \<and> j < n \<longrightarrow> A ! 0 ! (order ! j) \<le> A ! 0 ! (order ! i)"
    unfolding ord using descending_order[of _ _ "A ! 0"] l0 by blast
  have lo: "length order = n" unfolding ord using l0 by (simp add: length_argsort)
  have so: "set order \<subseteq> {0..<n}" unfolding ord using l0 by (simp add: set_argsort)
  have s0: "S ! 0 \<noteq> []" using assms(1,3) r by (auto simp: mat_def list_all_length)
  then obtain p where p: "np_mean (map Some (S ! 0)) = Some p"
    by (simp add: np_mean_Some)
  have cols: "order ! j < n \<and>
              (sep_method = ''ica'' \<longrightarrow>
                 transpose SM ! j =
                   map (\<lambda>x. fl2 (+) (Some (A_sep ! 0 ! (order ! j) * x))
                                (np_mean (map Some (S ! 0))))
                     (transpose S0 ! (order ! j))) \<and>
              (sep_method \<noteq> ''ica'' \<longrightarrow>
                 transpose SM ! j =
                   map (\<lambda>x. fl2 (+) (Some (A_sep ! 0 ! (order ! j) * x))
                                (fl2 (-) (np_mean (map Some (S ! 0)))
                                   (np_mean (map (\<lambda>x. Some (A_sep ! 0 ! (order ! j) * x))
                                               (transpose S0 ! (order ! j))))))
                     (transpose S0 ! (order ! j)) \<and>
                 np_mean (transpose SM ! j) = np_mean (map Some (S ! 0)))" if j: "j < n" for j
  proof -
    let ?oj = "order ! j"
    let ?w = "A_sep ! 0 ! ?oj"
    let ?comp = "map (\<lambda>row. row ! ?oj) S0"
    have oj: "?oj < n" using lo so j by (metis atLeastLessThan_iff nth_mem subsetD)
    have c: "transpose S0 ! ?oj = ?comp" using transpose_mat(2)[OF s(1) assms(3) oj] .
    have m: "transpose SM ! j = matched_column sep_method S S0 A_sep order j"
      using transpose_mat(2)[OF s(3) assms(3) j] s(5) j by simp
    have cne: "?comp \<noteq> []" using s(1) assms(3) by (auto simp: mat_def)
    have ica: "sep_method = ''ica'' \<Longrightarrow> transpose SM ! j =
        map (\<lambda>x. fl2 (+) (Some (?w * x)) (np_mean (map Some (S ! 0)))) ?comp"
      unfolding m by (simp add: matched_column_def recentre_def o_def)
    have nmf: "sep_method \<noteq> ''ica'' \<Longrightarrow> transpose SM ! j =
        map (\<lambda>x. fl2 (+) (Some (?w * x))
               (fl2 (-) (np_mean (map Some (S ! 0))) (np_mean (map (\<lambda>x. Some (?w * x)) ?comp))))
          ?comp"
      unfolding m using assms(8) by (auto simp: matched_column_def recentre_def o_def)
    show ?thesis
    proof (intro conjI impI)
      show "?oj < n" by (rule oj)
    next
      assume "sep_method = ''ica''"
      then show "transpose SM ! j =
                   map (\<lambda>x. fl2 (+) (Some (?w * x)) (np_mean (map Some (S ! 0))))
                     (transpose S0 ! ?oj)"
        unfolding c by (rule ica)
    next
      assume "sep_method \<noteq> ''ica''"
      then show "transpose SM ! j =
                   map (\<lambda>x. fl2 (+) (Some (?w * x))
                                (fl2 (-) (np_mean (map Some (S ! 0)))
                                   (np_mean (map (\<lambda>x. Some (?w * x)) (transpose S0 ! ?oj)))))
                     (transpose S0 ! ?oj)"
        unfolding c by (rule nmf)
    next
      assume a: "sep_method \<noteq> ''ica''"
      show "np_mean (transpose SM ! j) = np_mean (map Some (S ! 0))"
        unfolding nmf[OF a] p by (rule np_mean_recentred_scaled[OF cne])
    qed
  qed
  show ?thesis
    using s(6) A(1) ord desc cols by blast
qed

theorem separate_matched_columns_witness:
  "mat 2 2 [[0, 0], [1, 1::real]] \<and> lib_contract lib0 [[0, 0], [1, 1]] 2 500 (1 / 100000) 2 2 \<and>
   separate lib0 \<lparr>draws = 0, fit_log = []\<rparr> [[0, 0], [1, 1]] ''ica'' (Count 2) 500 (1 / 100000)
       892 10 =
     Inr (([[1, 3], [0, 1]], [[Some 0, Some (- 5)], [Some 2, Some 6]], [[2, - 5], [1, 1]],
           \<lparr>max_iterations = PInt 500, random_state' = PInt 892, iterations' = PInt 3,
            converged = PBool True\<rparr>),
          \<lparr>draws = 0, fit_log = [(Some 892, 3)]\<rparr>) \<and>
   normalize_columns 2 [[2, - 5], [1, 1]] = Inr [[2 / 3, 5 / 6], [1 / 3, 1 / 6]] \<and>
   rev (argsort ([[2 / 3, 5 / 6], [1 / 3, 1 / 6]] ! 0)) = [1, 0] \<and>
   [[Some 0, Some (- 5)], [Some 2, Some (6::real)]] ! 1 =
     map (\<lambda>x. fl2 (+) (Some ([[2, - 5], [1, 1]] ! 0 ! ([1, 0] ! 1) * x))
                  (np_mean (map Some ([[0, 0], [1, 1]] ! 0))))
       ([[1, 3], [0, 1]] ! ([1, 0] ! 1))"
proof -
  let ?S = "[[0, 0], [1, 1::real]]"
  let ?w = "\<lparr>draws = 0, fit_log = []\<rparr>"
  have a: "mat 2 2 ?S" by (simp add: mat_def)
  have m: "''ica'' \<in> {''ica'', ''nmf'', ''nmf_sklearn''}" by simp
  have ev: "separate lib0 ?w ?S ''ica'' (Count 2) 500 (1 / 100000) 892 10 =
     Inr (([[1, 3], [0, 1]], [[Some 0, Some (- 5)], [Some 2, Some 6]], [[2, - 5], [1, 1]],
           \<lparr>max_iterations = PInt 500, random_state' = PInt 892, iterations' = PInt 3,
            converged = PBool True\<rparr>),
          \<lparr>draws = 0, fit_log = [(Some 892, 3)]\<rparr>)"
    by code_simp
  have nc: "normalize_columns 2 [[2, - 5], [1, 1]] = Inr [[2 / 3, 5 / 6], [1 / 3, 1 / 6]]"
    by code_simp
  have ao: "rev (argsort ([[2 / 3, 5 / 6], [1 / 3, 1 / 6]] ! 0)) = [1, 0]"
    by code_simp
  from separate_matched_columns[where maxiter = 500 and tol = "1 / 100000" and maxtries = 10
      and w = ?w and random_state = 892, OF a _ _ _ lib0_resolve_count lib0_contract _ m]
  obtain S_sep S_matched A_sep conv w' A order where s:
    "separate lib0 ?w ?S ''ica'' (Count 2) 500 (1 / 100000) 892 10 =
       Inr ((S_sep, S_matched, A_sep, conv), w')"
    "normalize_columns 2 A_sep = Inr A" "order = rev (argsort (A ! 0))"
    and cols: "\<forall>j<2. order ! j < 2 \<and>
              (''ica'' = ''ica'' \<longrightarrow>
                 S_matched ! j =
                   map (\<lambda>x. fl2 (+) (Some (A_sep ! 0 ! (order ! j) * x))
                                (np_mean (map Some (?S ! 0))))
                     (S_sep ! (order ! j)))"
    by auto
  from s(1) ev have v: "S_sep = [[1, 3], [0, 1]]"
    "S_matched = [[Some 0, Some (- 5)], [Some 2, Some 6]]" "A_sep = [[2, - 5], [1, 1]]"
    by simp_all
  from s(2) nc v(3) have A: "A = [[2 / 3, 5 / 6], [1 / 3, 1 / 6]]" by simp
  have o: "order = [1, 0]" using s(3) ao unfolding A by simp
  have "(1::nat) < 2" by simp
  with cols have "S_matched ! 1 =
      map (\<lambda>x. fl2 (+) (Some (A_sep ! 0 ! (order ! 1) * x)) (np_mean (map Some (?S ! 0))))
        (S_sep ! (order ! 1))"
    by blast
  then have c: "[[Some 0, Some (- 5)], [Some 2, Some (6::real)]] ! 1 =
     map (\<lambda>x. fl2 (+) (Some ([[2, - 5], [1, 1]] ! 0 ! ([1, 0] ! 1) * x))
                  (np_mean (map Some (?S ! 0))))
       ([[1, 3], [0, 1]] ! ([1, 0] ! 1))"
    unfolding v o .
  show ?thesis
    using a lib0_contract[of ?S 500 "1 / 100000"] ev nc ao c by blast
qed

subsection \<open>Claim C3: the retry policy\<close>

text \<open>
  C3 (as stated, refuted). With nimfa's NMF and three tries allowed, a run that reaches
  the iteration budget (5 of 5 iterations) is not repeated: the function returns after
  that one run, and nothing is drawn from the generator.
\<close>

theorem separate_retry_counterexample:
  "map_sum id iterations (nimfa_Nmf lib0 (transpose [[0, 0], [1, 1]]) 5 2) = Inr 5 \<and>
   map_sum id snd
     (separate lib0 \<lparr>draws = 0, fit_log = []\<rparr> [[0, 0], [1, 1]] ''nmf'' (Count 2) 5
        (1 / 100000) 892 3) =
     Inr \<lparr>draws = 0, fit_log = [(None, 5)]\<rparr>"
  by code_simp

text \<open>
  C3 (amended). Under the conditions of C2 \<open>separate\<close> always returns, with
  \<open>max_iterations = maxiter\<close> in the metadata, and the solver runs it adds to the log are:
  for ICA, between one and \<open>maxtries\<close> runs of FastICA with the same \<open>maxiter\<close> and \<open>tol\<close>, the
  first with \<open>random_state\<close> and each later one with a seed freshly drawn by
  \<open>randint(8000)\<close>, every run but the last having reached \<open>maxiter\<close> iterations, the last
  one being below \<open>maxiter\<close> or the last one allowed, and \<open>converged\<close> is recorded as
  whether the last run's iteration count differs from \<open>maxiter\<close> (so it is false when
  every run reached \<open>maxiter\<close>); for sklearn's NMF, the same loop with the threshold
  \<open>maxiter - 1\<close>; for nimfa's NMF, exactly one run, no seed drawn, and \<open>converged\<close>
  recorded as whether its iteration count differs from \<open>maxiter\<close>. What the sklearn NMF
  path stores under \<open>converged\<close> is not part of this statement.
\<close>

theorem separate_retry_policy:
  assumes "mat r t S" "2 \<le> r" "0 < t" "0 < n"
    and "resolve_n_components lib S n_components = Count (int n)"
    and "lib_contract lib S n maxiter tol r t" "0 < maxtries"
    and "sep_method \<in> {''ica'', ''nmf'', ''nmf_sklearn''}"
  shows "\<exists>S_sep S_matched A_sep conv w' tries.
           separate lib w S sep_method n_components maxiter tol random_state maxtries =
             Inr ((S_sep, S_matched, A_sep, conv), w') \<and>
           fit_log w' = fit_log w @ tries \<and> max_iterations conv = PInt maxiter \<and>
           (sep_method = ''ica'' \<longrightarrow>
              retried (FastICA lib (transpose S) (int n) maxiter tol) (randint lib) maxiter
                (nat maxtries) random_state (draws w) tries \<and>
              draws w' = draws w + length tries - 1 \<and>
              converged conv = PBool (snd (last tries) \<noteq> maxiter)) \<and>
           (sep_method = ''nmf_sklearn'' \<longrightarrow>
              retried (NMF lib (transpose S) (int n) maxiter tol) (randint lib) (maxiter - 1)
                (nat maxtries) random_state (draws w) tries \<and>
              draws w' = draws w + length tries - 1) \<and>
           (sep_method = ''nmf'' \<longrightarrow>
              (\<exists>f. nimfa_Nmf lib (transpose S) maxiter (int n) = Inr f \<and>
                   tries = [(None, iterations f)]) \<and>
              draws w' = draws w \<and>
              converged conv = PBool (snd (last tries) \<noteq> maxiter))"
proof -
  have r: "0 < r" using assms(2) by simp
  have ne: "S \<noteq> []" using assms(1) r by (auto simp: mat_def)
  consider "sep_method = ''ica''" | "sep_method = ''nmf_sklearn''" | "sep_method = ''nmf''"
    using assms(8) by blast
  then show ?thesis
  proof cases
    case 1
    from factorize_ica[OF assms(6,7), of w random_state]
    obtain S_sep A_sep n_iter rs' w' tries where f:
      "factorize lib w S ''ica'' (Count (int n)) maxiter tol random_state maxtries =
         Inr (S_sep, A_sep, n_iter, rs', w')"
      "mat t n S_sep" "mat r n A_sep" "fit_log w' = fit_log w @ tries"
      "retried (FastICA lib (transpose S) (int n) maxiter tol) (randint lib) maxiter
         (nat maxtries) random_state (draws w) tries"
      "draws w' = draws w + length tries - 1" "last tries = (Some rs', n_iter)"
      by blast
    from match_components_ok[OF f(2,3) r ne, of "''ica''"] obtain SM where
      m: "match_components ''ica'' n S S_sep A_sep = Inr SM" by blast
    have s: "separate lib w S ''ica'' n_components maxiter tol random_state maxtries =
        Inr ((transpose S_sep, transpose SM, A_sep,
              convergence_info ''ica'' maxiter rs' n_iter), w')"
      by (rule separate_from_parts[OF assms(5) f(1) m])
    have c: "max_iterations (convergence_info ''ica'' maxiter rs' n_iter) = PInt maxiter"
      "converged (convergence_info ''ica'' maxiter rs' n_iter) = PBool (snd (last tries) \<noteq> maxiter)"
      using f(7) by (simp_all add: convergence_info_def)
    show ?thesis
      unfolding 1 using s f(4,5,6) c by (intro exI conjI impI) (assumption | simp)+
  next
    case 2
    from factorize_nmf_sklearn[OF assms(6,7,4), of w random_state]
    obtain S_sep A_sep n_iter rs' w' tries where f:
      "factorize lib w S ''nmf_sklearn'' (Count (int n)) maxiter tol random_state maxtries =
         Inr (S_sep, A_sep, n_iter, rs', w')"
      "mat t n S_sep" "mat r n A_sep" "fit_log w' = fit_log w @ tries"
      "retried (NMF lib (transpose S) (int n) maxiter tol) (randint lib) (maxiter - 1)
         (nat maxtries) random_state (draws w) tries"
      "draws w' = draws w + length tries - 1" "last tries = (Some rs', n_iter)"
      by blast
    from match_components_ok[OF f(2,3) r ne, of "''nmf_sklearn''"] obtain SM where
      m: "match_components ''nmf_sklearn'' n S S_sep A_sep = Inr SM" by blast
    have s: "separate lib w S ''nmf_sklearn'' n_components maxiter tol random_state maxtries =
        Inr ((transpose S_sep, transpose SM, A_sep,
              convergence_info ''nmf_sklearn'' maxiter rs' n_iter), w')"
      by (rule separate_from_parts[OF assms(5) f(1) m])
    have c: "max_iterations (convergence_info ''nmf_sklearn'' maxiter rs' n_iter) = PInt maxiter"
      "converged (convergence_info ''nmf_sklearn'' maxiter rs' n_iter) =
         PStr ''not yet implemented''"
      by (simp_all add: convergence_info_def)
    show ?thesis
      unfolding 2 using s f(4,5,6) c by (intro exI conjI impI) (assumption | simp)+
  next
    case 3
    from factorize_nmf[OF assms(6,4), of w random_state maxtries]
    obtain S_sep A_sep n_iter fit where f:
      "factorize lib w S ''nmf'' (Count (int n)) maxiter tol random_state maxtries =
         Inr (S_sep, A_sep, n_iter, random_state, w\<lparr>fit_log := fit_log w @ [(None, n_iter)]\<rparr>)"
      "mat t n S_sep" "mat r n A_sep"
      "nimfa_Nmf lib (transpose S) maxiter (int n) = Inr fit" "n_iter = iterations fit"
      by blast
    from match_components_ok[OF f(2,3) r ne, of "''nmf''"] obtain SM where
      m: "match_components ''nmf'' n S S_sep A_sep = Inr SM" by blast
    have s: "separate lib w S ''nmf'' n_components maxiter tol random_state maxtries =
        Inr ((transpose S_sep, transpose SM, A_sep,
              convergence_info ''nmf'' maxiter random_state n_iter),
             w\<lparr>fit_log := fit_log w @ [(None, n_iter)]\<rparr>)"
      by (rule separate_from_parts[OF assms(5) f(1) m])
    have c: "max_iterations (convergence_info ''nmf'' maxiter random_state n_iter) = PInt maxiter"
      "converged (convergence_info ''nmf'' maxiter random_state n_iter) =
         PBool (snd (last [(None :: int option, n_iter)]) \<noteq> maxiter)"
      by (simp_all add: convergence_info_def)
    have l: "fit_log (w\<lparr>fit_log := fit_log w @ [(None, n_iter)]\<rparr>) = fit_log w @ [(None, n_iter)]"
      "draws (w\<lparr>fit_log := fit_log w @ [(None, n_iter)]\<rparr>) = draws w"
      by simp_all
    have e: "\<exists>f. nimfa_Nmf lib (transpose S) maxiter (int n) = Inr f \<and>
                 [(None, n_iter)] = [(None, iterations f)]"
      using f(4,5) by simp
    show ?thesis
      unfolding 3
      by (rule exI[of _ "transpose S_sep"], rule exI[of _ "transpose SM"], rule exI[of _ A_sep],
          rule exI[of _ "convergence_info ''nmf'' maxiter random_state n_iter"],
          rule exI[of _ "w\<lparr>fit_log := fit_log w @ [(None, n_iter)]\<rparr>"],
          rule exI[of _ "[(None, n_iter)]"])
        (use s l c e in simp)
  qed
qed

theorem separate_retry_policy_witness:
  "mat 2 2 [[0, 0], [1, 1::real]] \<and> lib_contract lib0 [[0, 0], [1, 1]] 2 3 (1 / 100000) 2 2 \<and>
   separate lib0 \<lparr>draws = 0, fit_log = []\<rparr> [[0, 0], [1, 1]] ''ica'' (Count 2) 3 (1 / 100000)
       892 2 =
     Inr (([[1, 3], [0, 1]], [[Some 0, Some (- 5)], [Some 2, Some 6]], [[2, - 5], [1, 1]],
           \<lparr>max_iterations = PInt 3, random_state' = PInt 17, iterations' = PInt 3,
            converged = PBool False\<rparr>),
          \<lparr>draws = 1, fit_log = [(Some 892, 3), (Some 17, 3)]\<rparr>) \<and>
   retried (FastICA lib0 (transpose [[0, 0], [1, 1]]) (int 2) 3 (1 / 100000)) (randint lib0) 3
     (nat 2) 892 0 [(Some 892, 3), (Some 17, 3)]"
proof -
  let ?S = "[[0, 0], [1, 1::real]]"
  let ?w = "\<lparr>draws = 0, fit_log = []\<rparr>"
  have a: "mat 2 2 ?S" by (simp add: mat_def)
  have m: "''ica'' \<in> {''ica'', ''nmf'', ''nmf_sklearn''}" by simp
  have ev: "separate lib0 ?w ?S ''ica'' (Count 2) 3 (1 / 100000) 892 2 =
     Inr (([[1, 3], [0, 1]], [[Some 0, Some (- 5)], [Some 2, Some 6]], [[2, - 5], [1, 1]],
           \<lparr>max_iterations = PInt 3, random_state' = PInt 17, iterations' = PInt 3,
            converged = PBool False\<rparr>),
          \<lparr>draws = 1, fit_log = [(Some 892, 3), (Some 17, 3)]\<rparr>)"
    by code_simp
  from separate_retry_policy[where maxiter = 3 and tol = "1 / 100000" and maxtries = 2
      and w = ?w and random_state = 892, OF a _ _ _ lib0_resolve_count lib0_contract _ m]
  obtain S_sep S_matched A_sep conv w' tries where s:
    "separate lib0 ?w ?S ''ica'' (Count 2) 3 (1 / 100000) 892 2 =
       Inr ((S_sep, S_matched, A_sep, conv), w')"
    "fit_log w' = fit_log ?w @ tries"
    "retried (FastICA lib0 (transpose ?S) (int 2) 3 (1 / 100000)) (randint lib0) 3
       (nat 2) 892 (draws ?w) tries"
    by auto
  from s(1) ev have "w' = \<lparr>draws = 1, fit_log = [(Some 892, 3), (Some 17, 3)]\<rparr>" by simp
  with s(2) have t: "tries = [(Some 892, 3), (Some 17, 3)]" by simp
  have "retried (FastICA lib0 (transpose ?S) (int 2) 3 (1 / 100000)) (randint lib0) 3
     (nat 2) 892 0 [(Some 892, 3), (Some 17, 3)]"
    using s(3) unfolding t by simp
  then show ?thesis
    using a lib0_contract[of ?S 3 "1 / 100000"] ev by blast
qed

subsection \<open>The matching step under a permutation of the neuropil regions\<close>

text \<open>
  What the code of this repository contributes to the permutation invariance of claim
  C5: given the same separated components, permuting the non-primary rows of the mixing
  matrix (and of \<open>S\<close>) changes neither the scores, nor the order, nor any matched trace.
  Whether the solvers return the same components for permuted input is a property of
  their floating-point iterations, outside this file.
\<close>

lemma sum_list_map_mset: "mset xs = mset ys \<Longrightarrow> sum_list (map f xs) = sum_list (map f (ys::'a list))"
  for f :: "'a \<Rightarrow> real"
proof -
  assume "mset xs = mset ys"
  then have "mset (map f xs) = mset (map f ys)" by (metis mset_map)
  then show ?thesis by (metis sum_mset_sum_list)
qed

lemma mat_permuted:
  assumes "mat r n (a0 # rest)" "mset rest' = mset rest"
  shows "mat r n (a0 # rest')"
proof -
  have "length rest' = length rest" using assms(2) by (rule mset_eq_length)
  moreover have "set rest' = set rest" using assms(2) by (rule mset_eq_setD)
  ultimately show ?thesis using assms(1) by (simp add: mat_def list_all_iff)
qed

lemma normalized_scores:
  assumes "mat r n (a0 # rest)"
  shows "\<exists>A. normalize_columns n (a0 # rest) = Inr A \<and> length (A ! 0) = n \<and>
           row0 A = Inr (A ! 0) \<and>
           (\<forall>j<n. A ! 0 ! j =
              (if \<bar>a0 ! j\<bar> + sum_list (map (\<lambda>row. \<bar>row ! j\<bar>) rest) \<noteq> 0
               then \<bar>a0 ! j\<bar> / (\<bar>a0 ! j\<bar> + sum_list (map (\<lambda>row. \<bar>row ! j\<bar>) rest))
               else \<bar>a0 ! j\<bar>))"
proof -
  let ?M = "a0 # rest"
  have r: "0 < r" using assms by (auto simp: mat_def)
  from normalize_loop_inv[OF mat_abs_matrix[OF assms], of n]
  obtain A where A: "normalize_columns n ?M = Inr A" "mat r n A"
    "\<forall>j<n. map (\<lambda>row. row ! j) A = normalized (map (\<lambda>row. row ! j) (abs_matrix ?M))"
    unfolding normalize_columns_def by auto
  have r0: "row0 A = Inr (A ! 0)" "length (A ! 0) = n" using mat_row0[OF A(2) r] by simp_all
  have Ane: "A \<noteq> []" using A(2) r by (auto simp: mat_def)
  have "A ! 0 ! j =
          (if \<bar>a0 ! j\<bar> + sum_list (map (\<lambda>row. \<bar>row ! j\<bar>) rest) \<noteq> 0
           then \<bar>a0 ! j\<bar> / (\<bar>a0 ! j\<bar> + sum_list (map (\<lambda>row. \<bar>row ! j\<bar>) rest))
           else \<bar>a0 ! j\<bar>)" if j: "j < n" for j
  proof -
    have c: "map (\<lambda>row. row ! j) (abs_matrix ?M) = \<bar>a0 ! j\<bar> # map (\<lambda>row. \<bar>row ! j\<bar>) rest"
      using assms j by (auto simp: abs_matrix_def mat_def list_all_iff)
    have "A ! 0 ! j = map (\<lambda>row. row ! j) A ! 0" using Ane by simp
    also have "\<dots> = normalized (\<bar>a0 ! j\<bar> # map (\<lambda>row. \<bar>row ! j\<bar>) rest) ! 0"
      using A(3) j c by simp
    finally show ?thesis by (simp add: normalized_def)
  qed
  then show ?thesis using A(1) r0 by blast
qed

lemma component_order_permuted:
  assumes "mat r n (a0 # rest)" "mset rest' = mset rest"
  shows "component_order n (a0 # rest') = component_order n (a0 # rest)"
proof -
  from normalized_scores[OF assms(1)] obtain A where A:
    "normalize_columns n (a0 # rest) = Inr A" "length (A ! 0) = n" "row0 A = Inr (A ! 0)"
    "\<forall>j<n. A ! 0 ! j =
              (if \<bar>a0 ! j\<bar> + sum_list (map (\<lambda>row. \<bar>row ! j\<bar>) rest) \<noteq> 0
               then \<bar>a0 ! j\<bar> / (\<bar>a0 ! j\<bar> + sum_list (map (\<lambda>row. \<bar>row ! j\<bar>) rest))
               else \<bar>a0 ! j\<bar>)"
    by blast
  from normalized_scores[OF mat_permuted[OF assms]] obtain A' where A':
    "normalize_columns n (a0 # rest') = Inr A'" "length (A' ! 0) = n" "row0 A' = Inr (A' ! 0)"
    "\<forall>j<n. A' ! 0 ! j =
              (if \<bar>a0 ! j\<bar> + sum_list (map (\<lambda>row. \<bar>row ! j\<bar>) rest') \<noteq> 0
               then \<bar>a0 ! j\<bar> / (\<bar>a0 ! j\<bar> + sum_list (map (\<lambda>row. \<bar>row ! j\<bar>) rest'))
               else \<bar>a0 ! j\<bar>)"
    by blast
  have s: "sum_list (map (\<lambda>row. \<bar>row ! j\<bar>) rest') = sum_list (map (\<lambda>row. \<bar>row ! j\<bar>) rest)" for j
    by (rule sum_list_map_mset[OF assms(2)])
  have "A' ! 0 = A ! 0"
    by (rule nth_equalityI) (use A(2,4) A'(2,4) s in simp_all)
  then show ?thesis
    using A(1,3) A'(1,3) by (simp add: component_order_def ebind_def)
qed

lemma match_components_neuropil_permutation:
  assumes "mat r n (a0 # rest)" "mset rest' = mset rest"
  shows "match_components m n (s0 # others') S_sep (a0 # rest') =
         match_components m n (s0 # others) S_sep (a0 # rest)"
proof -
  have "match_step m (s0 # others') S_sep (a0 # rest') = match_step m (s0 # others) S_sep (a0 # rest)"
    by (intro ext) (simp add: match_step_def row0_def)
  then show ?thesis
    by (simp add: match_components_def component_order_permuted[OF assms])
qed

text \<open>
  Claim C5 as an equation between two runs of \<open>separate\<close>: on \<open>S\<close> and on \<open>S\<close> with its
  non-primary rows permuted. If the solver returns the same components for both inputs,
  with the non-primary rows of the mixing matrix permuted, then the two runs return the
  same \<open>S_sep\<close> and the same \<open>S_matched\<close>. Whether the solvers do so is what the claim
  leaves open.
\<close>

lemma separate_neuropil_permutation:
  assumes "resolve_n_components lib (s0 # others) n_components = Count (int n)"
    and "resolve_n_components lib (s0 # others') n_components = Count (int n)"
    and "factorize lib w (s0 # others) sep_method (Count (int n)) maxiter tol rs maxtries =
           Inr (S_sep, a0 # rest, n_iter, rs1, w1)"
    and "factorize lib w (s0 # others') sep_method (Count (int n)) maxiter tol rs maxtries =
           Inr (S_sep, a0 # rest', n_iter', rs1', w1')"
    and "mat r n (a0 # rest)" "mset rest' = mset rest"
  shows "map_sum id (\<lambda>((S_sep, S_matched, A_sep, conv), w). (S_sep, S_matched))
           (separate lib w (s0 # others') sep_method n_components maxiter tol rs maxtries) =
         map_sum id (\<lambda>((S_sep, S_matched, A_sep, conv), w). (S_sep, S_matched))
           (separate lib w (s0 # others) sep_method n_components maxiter tol rs maxtries)"
  using assms(1-4) match_components_neuropil_permutation[OF assms(5,6), of sep_method s0 others' S_sep others]
  by (simp add: separate_def ebind_def split: sum.splits)

end
